theory Spec2Isabelle
  imports Complex_Main "HOL-Library.Word"
begin

unbundle bit_operations_syntax

section \<open>Data model (diffx.go, element.go, context.go)\<close>

text \<open>
  Go's \<open>int\<close> is modelled as \<open>int\<close>: all quantities are indices and lengths of slices
  held in memory, far away from 64-bit overflow. A slice is a list; every indexed access
  goes through \<open>idx\<close> or \<open>upd\<close>, which return \<open>Inl IndexOutOfRange\<close> where Go panics.
  A computation that does not return (unbounded recursion or a loop that stops making
  progress) has the value \<open>None\<close>.
\<close>

datatype error = IndexOutOfRange

definition idx :: "'a list \<Rightarrow> int \<Rightarrow> error + 'a" where
  "idx xs i = (if 0 \<le> i \<and> i < int (length xs) then Inr (xs ! nat i) else Inl IndexOutOfRange)"

definition upd :: "'a list \<Rightarrow> int \<Rightarrow> 'a \<Rightarrow> error + 'a list" where
  "upd xs i v = (if 0 \<le> i \<and> i < int (length xs) then Inr (xs[nat i := v]) else Inl IndexOutOfRange)"

definition bindE :: "error + 'a \<Rightarrow> ('a \<Rightarrow> error + 'b) \<Rightarrow> error + 'b" where
  "bindE m f = (case m of Inl e \<Rightarrow> Inl e | Inr v \<Rightarrow> f v)"

text \<open>Go's \<open>/\<close> and \<open>%\<close> on \<open>int\<close> truncate towards zero.\<close>

definition quot :: "int \<Rightarrow> int \<Rightarrow> int" where
  "quot a b = sgn a * sgn b * (\<bar>a\<bar> div \<bar>b\<bar>)"

definition rem :: "int \<Rightarrow> int \<Rightarrow> int" where
  "rem a b = a - b * quot a b"

datatype OpType = Equal | Insert | Delete

record DiffOp =
  Type :: OpType
  AStart :: int
  AEnd :: int
  BStart :: int
  BEnd :: int

definition mkOp :: "OpType \<Rightarrow> int \<Rightarrow> int \<Rightarrow> int \<Rightarrow> int \<Rightarrow> DiffOp" where
  "mkOp t as ae bs be = \<lparr>Type = t, AStart = as, AEnd = ae, BStart = bs, BEnd = be\<rparr>"

text \<open>
  \<open>Element\<close> is an interface. The repository has two implementations: \<open>StringElement\<close>
  (element.go) and \<open>CustomElement\<close> with an \<open>ID\<close> and a \<open>Name\<close> (example_test.go).
\<close>

datatype Element = StringElement string | CustomElement int string

text \<open>The method \<open>Equal\<close> of both implementations: a failed type assertion gives \<open>false\<close>.\<close>

fun ElemEqual :: "Element \<Rightarrow> Element \<Rightarrow> bool" where
  "ElemEqual (StringElement s) other =
     (case other of StringElement o' \<Rightarrow> s = o' | CustomElement _ _ \<Rightarrow> False)"
| "ElemEqual (CustomElement i n) other =
     (case other of CustomElement i' _ \<Rightarrow> i = i' | StringElement _ \<Rightarrow> False)"

text \<open>FNV-1a over the bytes of the string, 64 bit (\<open>hash/fnv\<close>, \<open>New64a\<close>).\<close>

definition fnv_offset64 :: "64 word" where
  "fnv_offset64 = 14695981039346656037"

definition fnv_prime64 :: "64 word" where
  "fnv_prime64 = 1099511628211"

fun fnv1a :: "64 word \<Rightarrow> string \<Rightarrow> 64 word" where
  "fnv1a h [] = h"
| "fnv1a h (c # cs) = fnv1a ((h XOR of_char c) * fnv_prime64) cs"

fun Hash :: "Element \<Rightarrow> 64 word" where
  "Hash (StringElement s) = fnv1a fnv_offset64 s"
| "Hash (CustomElement i n) = word_of_int i"

definition toElements :: "string list \<Rightarrow> Element list" where
  "toElements strs = map StringElement strs"

record options =
  useHeuristic :: bool
  forceMinimal :: bool
  costLimit :: int
  preprocessing :: bool
  postprocessing :: bool
  anchorElimination :: bool

definition defaultOptions :: options where
  "defaultOptions = \<lparr>useHeuristic = True, forceMinimal = False, costLimit = 0,
     preprocessing = True, postprocessing = True, anchorElimination = True\<rparr>"

text \<open>The functional options, as data; \<open>applyOption\<close> is the closure each one returns.\<close>

datatype Option =
    WithHeuristic bool
  | WithMinimal bool
  | WithCostLimit int
  | WithPreprocessing bool
  | WithPostprocessing bool
  | WithAnchorElimination bool

fun applyOption :: "Option \<Rightarrow> options \<Rightarrow> options" where
  "applyOption (WithHeuristic enabled) o' = o'\<lparr>useHeuristic := enabled\<rparr>"
| "applyOption (WithMinimal minimal) o' =
     (let o1 = o'\<lparr>forceMinimal := minimal\<rparr>
      in if minimal then o1\<lparr>useHeuristic := False\<rparr> else o1)"
| "applyOption (WithCostLimit n) o' = o'\<lparr>costLimit := n\<rparr>"
| "applyOption (WithPreprocessing enabled) o' = o'\<lparr>preprocessing := enabled\<rparr>"
| "applyOption (WithPostprocessing enabled) o' = o'\<lparr>postprocessing := enabled\<rparr>"
| "applyOption (WithAnchorElimination enabled) o' = o'\<lparr>anchorElimination := enabled\<rparr>"

definition applyOptions :: "Option list \<Rightarrow> options" where
  "applyOptions opts = fold applyOption opts defaultOptions"


section \<open>Myers core: context, middle snake, divide and conquer (context.go, myers.go, compare.go)\<close>

record partition =
  xmid :: int
  ymid :: int
  loMinimal :: bool
  hiMinimal :: bool

record diffContext =
  xvec :: "Element list"
  yvec :: "Element list"
  fdiag :: "int list"
  bdiag :: "int list"
  xchanges :: "bool list"
  ychanges :: "bool list"
  ctx_useHeuristic :: bool
  ctx_costLimit :: int

record snakeInfo =
  sn_x :: int
  sn_y :: int
  sn_len :: int
  sn_forward :: bool

definition significantMatchLen :: int where
  "significantMatchLen = 16"

text \<open>
  \<open>isqrt\<close>: Newton's method. The loop divides by the current iterate; for \<open>n \<ge> 2\<close> the
  iterates stay at least 1, so the guard \<open>0 < y\<close>, which
  makes the recursion well-founded for every argument, never stops the loop of the source.
\<close>

function isqrt_loop :: "int \<Rightarrow> int \<Rightarrow> int \<Rightarrow> int" where
  "isqrt_loop n x y = (if y < x \<and> 0 < y then isqrt_loop n y (quot (y + quot n y) 2) else x)"
  by pat_completeness auto
termination
  by (relation "measure (\<lambda>(n, x, y). nat x)") auto

declare isqrt_loop.simps [simp del]

definition isqrt :: "int \<Rightarrow> int" where
  "isqrt n = (if n \<le> 0 then 0 else if n = 1 then 1 else isqrt_loop n n (quot (n + 1) 2))"

text \<open>
  \<open>newDiffContext\<close>. The automatic cost limit is \<open>int(math.Sqrt(n) * math.Sqrt(m) / 4)\<close>,
  at least 256; the floating-point product is taken in exact arithmetic here, where
  \<open>\<lfloor>\<surd>n \<sqdot> \<surd>m / 4\<rfloor> = \<lfloor>\<lfloor>\<surd>(n m)\<rfloor> / 4\<rfloor>\<close>. Below \<open>n m = 2\<^sup>2\<^sup>0\<close> both are under 256,
  so the limit is 256 whatever the rounding.
\<close>

definition newDiffContext :: "Element list \<Rightarrow> Element list \<Rightarrow> options \<Rightarrow> diffContext" where
  "newDiffContext a b opts =
     (let n = int (length a); m = int (length b); diagSize = n + m + 3;
          ctx = \<lparr>xvec = a, yvec = b,
                 fdiag = replicate (nat diagSize) 0, bdiag = replicate (nat diagSize) 0,
                 xchanges = replicate (nat n) False, ychanges = replicate (nat m) False,
                 ctx_useHeuristic = useHeuristic opts, ctx_costLimit = costLimit opts\<rparr>
      in if ctx_costLimit ctx = 0 \<and> ctx_useHeuristic ctx
         then (let c = quot (isqrt (n * m)) 4
               in ctx\<lparr>ctx_costLimit := (if c < 256 then 256 else c)\<rparr>)
         else ctx)"

function markDeleted :: "diffContext \<Rightarrow> int \<Rightarrow> int \<Rightarrow> error + diffContext" where
  "markDeleted ctx i xlim =
     (if i < xlim
      then (case upd (xchanges ctx) i True of
              Inl e \<Rightarrow> Inl e
            | Inr xc \<Rightarrow> markDeleted (ctx\<lparr>xchanges := xc\<rparr>) (i + 1) xlim)
      else Inr ctx)"
  by pat_completeness auto
termination
  by (relation "measure (\<lambda>(ctx, i, xlim). nat (xlim - i))") auto

declare markDeleted.simps [simp del]

function markInserted :: "diffContext \<Rightarrow> int \<Rightarrow> int \<Rightarrow> error + diffContext" where
  "markInserted ctx i ylim =
     (if i < ylim
      then (case upd (ychanges ctx) i True of
              Inl e \<Rightarrow> Inl e
            | Inr yc \<Rightarrow> markInserted (ctx\<lparr>ychanges := yc\<rparr>) (i + 1) ylim)
      else Inr ctx)"
  by pat_completeness auto
termination
  by (relation "measure (\<lambda>(ctx, i, ylim). nat (ylim - i))") auto

declare markInserted.simps [simp del]

definition ctx_equal :: "diffContext \<Rightarrow> int \<Rightarrow> int \<Rightarrow> error + bool" where
  "ctx_equal ctx i j =
     bindE (idx (xvec ctx) i) (\<lambda>a. bindE (idx (yvec ctx) j) (\<lambda>b. Inr (ElemEqual a b)))"

text \<open>The two diagonal slides: forward while \<open>x < n\<close>, \<open>y < m\<close> and the elements match,
  backward while \<open>x > 0\<close>, \<open>y > 0\<close> and the elements before match.\<close>

function snake_fwd :: "diffContext \<Rightarrow> int \<Rightarrow> int \<Rightarrow> int \<Rightarrow> int \<Rightarrow> int \<Rightarrow> int \<Rightarrow> error + (int \<times> int)" where
  "snake_fwd ctx xoff yoff n m x y =
     (if x < n \<and> y < m
      then (case ctx_equal ctx (xoff + x) (yoff + y) of
              Inl e \<Rightarrow> Inl e
            | Inr eq \<Rightarrow> if eq then snake_fwd ctx xoff yoff n m (x + 1) (y + 1) else Inr (x, y))
      else Inr (x, y))"
  by pat_completeness auto
termination
  by (relation "measure (\<lambda>(ctx, xoff, yoff, n, m, x, y). nat (n - x))") auto

declare snake_fwd.simps [simp del]

function snake_bwd :: "diffContext \<Rightarrow> int \<Rightarrow> int \<Rightarrow> int \<Rightarrow> int \<Rightarrow> error + (int \<times> int)" where
  "snake_bwd ctx xoff yoff x y =
     (if x > 0 \<and> y > 0
      then (case ctx_equal ctx (xoff + x - 1) (yoff + y - 1) of
              Inl e \<Rightarrow> Inl e
            | Inr eq \<Rightarrow> if eq then snake_bwd ctx xoff yoff (x - 1) (y - 1) else Inr (x, y))
      else Inr (x, y))"
  by pat_completeness auto
termination
  by (relation "measure (\<lambda>(ctx, xoff, yoff, x, y). nat x)") auto

declare snake_bwd.simps [simp del]

text \<open>The state of one \<open>findMiddleSnake\<close> call: the context (whose diagonal arrays the
  call writes), the best snake so far and its score. A step of a loop either goes on
  with a new state or returns a partition, with the context as left by the writes.\<close>

record search =
  s_ctx :: diffContext
  bestSnake :: snakeInfo
  bestSnakeScore :: int

datatype outcome = Continue search | Return partition diffContext

definition track :: "search \<Rightarrow> int \<Rightarrow> int \<Rightarrow> int \<Rightarrow> int \<Rightarrow> int \<Rightarrow> bool \<Rightarrow> search" where
  "track s n m x y snakeLen fwd =
     (if ctx_useHeuristic (s_ctx s) \<and> snakeLen \<ge> significantMatchLen
      then (let midDist = \<bar>quot (x + y) 2 - quot (n + m) 4\<bar>;
                score = snakeLen * 2 - midDist
            in if score > bestSnakeScore s
               then s\<lparr>bestSnakeScore := score,
                      bestSnake := \<lparr>sn_x = x, sn_y = y, sn_len = snakeLen, sn_forward = fwd\<rparr>\<rparr>
               else s)
      else s)"

definition forward_k :: "search \<Rightarrow> int \<Rightarrow> int \<Rightarrow> int \<Rightarrow> int \<Rightarrow> int \<Rightarrow> int \<Rightarrow> error + outcome" where
  "forward_k s xoff yoff n m d k =
     (let ctx = s_ctx s; delta = n - m; deltaOdd = (delta AND 1 \<noteq> 0);
          offset = m + 1; kIdx = offset + k
      in if kIdx - 1 < 0 \<or> kIdx + 1 \<ge> int (length (fdiag ctx)) then Inr (Continue s)
         else
           bindE (idx (fdiag ctx) (kIdx - 1)) (\<lambda>lo.
           bindE (idx (fdiag ctx) (kIdx + 1)) (\<lambda>hi.
           let x0 = (if k = - d \<or> (k \<noteq> d \<and> lo < hi) then hi else lo + 1);
               y0 = x0 - k
           in if y0 < 0 \<or> y0 > m \<or> x0 < 0 \<or> x0 > n
              then bindE (upd (fdiag ctx) kIdx x0) (\<lambda>fd.
                     Inr (Continue (s\<lparr>s_ctx := ctx\<lparr>fdiag := fd\<rparr>\<rparr>)))
              else
                bindE (snake_fwd ctx xoff yoff n m x0 y0) (\<lambda>(x, y).
                bindE (upd (fdiag ctx) kIdx x) (\<lambda>fd.
                let ctx' = ctx\<lparr>fdiag := fd\<rparr>;
                    s' = track (s\<lparr>s_ctx := ctx'\<rparr>) n m x y (x - x0) True
                in if deltaOdd \<and> k \<ge> delta - (d - 1) \<and> k \<le> delta + (d - 1)
                   then (let bIdx = offset + k - delta
                         in if bIdx \<ge> 0 \<and> bIdx < int (length (bdiag ctx'))
                            then bindE (idx (fdiag ctx') kIdx) (\<lambda>fv.
                                 bindE (idx (bdiag ctx') bIdx) (\<lambda>bv.
                                 if fv \<ge> bv
                                 then Inr (Return \<lparr>xmid = xoff + x, ymid = yoff + y,
                                               loMinimal = True, hiMinimal = True\<rparr> ctx')
                                 else Inr (Continue s')))
                            else Inr (Continue s'))
                   else Inr (Continue s'))))))"

definition backward_k :: "search \<Rightarrow> int \<Rightarrow> int \<Rightarrow> int \<Rightarrow> int \<Rightarrow> int \<Rightarrow> int \<Rightarrow> error + outcome" where
  "backward_k s xoff yoff n m d k =
     (let ctx = s_ctx s; delta = n - m; deltaOdd = (delta AND 1 \<noteq> 0);
          offset = m + 1; kIdx = offset + k
      in if kIdx - 1 < 0 \<or> kIdx + 1 \<ge> int (length (bdiag ctx)) then Inr (Continue s)
         else
           bindE (idx (bdiag ctx) (kIdx - 1)) (\<lambda>lo.
           bindE (idx (bdiag ctx) (kIdx + 1)) (\<lambda>hi.
           let x0 = (if k = d \<or> (k \<noteq> - d \<and> lo < hi) then lo else hi - 1);
               y0 = x0 - k - delta
           in if y0 < 0 \<or> y0 > m \<or> x0 < 0 \<or> x0 > n
              then bindE (upd (bdiag ctx) kIdx x0) (\<lambda>bd.
                     Inr (Continue (s\<lparr>s_ctx := ctx\<lparr>bdiag := bd\<rparr>\<rparr>)))
              else
                bindE (snake_bwd ctx xoff yoff x0 y0) (\<lambda>(x, y).
                bindE (upd (bdiag ctx) kIdx x) (\<lambda>bd.
                let ctx' = ctx\<lparr>bdiag := bd\<rparr>;
                    s' = track (s\<lparr>s_ctx := ctx'\<rparr>) n m x y (x0 - x) False
                in if \<not> deltaOdd \<and> k + delta \<ge> - d \<and> k + delta \<le> d
                   then (let fIdx = offset + k + delta
                         in if fIdx \<ge> 0 \<and> fIdx < int (length (fdiag ctx'))
                            then bindE (idx (fdiag ctx') fIdx) (\<lambda>fx.
                                 bindE (idx (bdiag ctx') kIdx) (\<lambda>bv.
                                 if fx \<ge> bv
                                 then (let fy = fx - (k + delta)
                                       in Inr (Return \<lparr>xmid = xoff + fx, ymid = yoff + fy,
                                                     loMinimal = True, hiMinimal = True\<rparr> ctx'))
                                 else Inr (Continue s')))
                            else Inr (Continue s'))
                   else Inr (Continue s'))))))"

function forward_loop :: "search \<Rightarrow> int \<Rightarrow> int \<Rightarrow> int \<Rightarrow> int \<Rightarrow> int \<Rightarrow> int \<Rightarrow> int \<Rightarrow> error + outcome" where
  "forward_loop s xoff yoff n m d k kMax =
     (if k \<le> kMax
      then (case forward_k s xoff yoff n m d k of
              Inl e \<Rightarrow> Inl e
            | Inr (Return p c) \<Rightarrow> Inr (Return p c)
            | Inr (Continue s') \<Rightarrow> forward_loop s' xoff yoff n m d (k + 2) kMax)
      else Inr (Continue s))"
  by pat_completeness auto
termination
  by (relation "measure (\<lambda>(s, xoff, yoff, n, m, d, k, kMax). nat (kMax + 1 - k))") auto

declare forward_loop.simps [simp del]

function backward_loop :: "search \<Rightarrow> int \<Rightarrow> int \<Rightarrow> int \<Rightarrow> int \<Rightarrow> int \<Rightarrow> int \<Rightarrow> int \<Rightarrow> error + outcome" where
  "backward_loop s xoff yoff n m d k kMax =
     (if k \<le> kMax
      then (case backward_k s xoff yoff n m d k of
              Inl e \<Rightarrow> Inl e
            | Inr (Return p c) \<Rightarrow> Inr (Return p c)
            | Inr (Continue s') \<Rightarrow> backward_loop s' xoff yoff n m d (k + 2) kMax)
      else Inr (Continue s))"
  by pat_completeness auto
termination
  by (relation "measure (\<lambda>(s, xoff, yoff, n, m, d, k, kMax). nat (kMax + 1 - k))") auto

declare backward_loop.simps [simp del]

definition snakeToPartition :: "snakeInfo \<Rightarrow> int \<Rightarrow> int \<Rightarrow> int \<Rightarrow> int \<Rightarrow> partition" where
  "snakeToPartition snake xoff yoff n m =
     (if sn_forward snake
      then \<lparr>xmid = xoff + sn_x snake, ymid = yoff + sn_y snake, loMinimal = True, hiMinimal = False\<rparr>
      else \<lparr>xmid = xoff + sn_x snake, ymid = yoff + sn_y snake, loMinimal = False, hiMinimal = True\<rparr>)"

text \<open>The lower end of a \<open>k\<close> range at distance \<open>d\<close>: \<open>-d\<close> clamped to \<open>-m\<close>, then raised
  by one when its parity differs from that of \<open>d\<close>; the upper end is \<open>d\<close> clamped to \<open>n\<close>.\<close>

definition kLow :: "int \<Rightarrow> int \<Rightarrow> int" where
  "kLow m d = (let kMin = (if - d < - m then - m else - d)
               in if rem (kMin + d) 2 \<noteq> 0 then kMin + 1 else kMin)"

definition kHigh :: "int \<Rightarrow> int \<Rightarrow> int" where
  "kHigh n d = (if d > n then n else d)"

function d_loop :: "search \<Rightarrow> int \<Rightarrow> int \<Rightarrow> int \<Rightarrow> int \<Rightarrow> bool \<Rightarrow> int \<Rightarrow> int \<Rightarrow> int \<Rightarrow> int \<Rightarrow> error + outcome" where
  "d_loop s xoff yoff n m findMinimal maxD costLimit' tooExpensive d =
     (if d \<le> maxD
      then if ctx_useHeuristic (s_ctx s) \<and> \<not> findMinimal \<and> d > tooExpensive \<and> bestSnakeScore s > 0
           then Inr (Return (snakeToPartition (bestSnake s) xoff yoff n m) (s_ctx s))
           else (case forward_loop s xoff yoff n m d (kLow m d) (kHigh n d) of
                   Inl e \<Rightarrow> Inl e
                 | Inr (Return p c) \<Rightarrow> Inr (Return p c)
                 | Inr (Continue s1) \<Rightarrow>
                     (case backward_loop s1 xoff yoff n m d (kLow m d) (kHigh n d) of
                        Inl e \<Rightarrow> Inl e
                      | Inr (Return p c) \<Rightarrow> Inr (Return p c)
                      | Inr (Continue s2) \<Rightarrow>
                          if d \<ge> costLimit' \<and> bestSnakeScore s2 > 0
                          then Inr (Return (snakeToPartition (bestSnake s2) xoff yoff n m) (s_ctx s2))
                          else d_loop s2 xoff yoff n m findMinimal maxD costLimit' tooExpensive (d + 1)))
      else Inr (Continue s))"
  by pat_completeness auto
termination
  by (relation "measure (\<lambda>(s, xoff, yoff, n, m, fm, maxD, cl, te, d). nat (maxD + 1 - d))") auto

declare d_loop.simps [simp del]

definition greedyFallback :: "diffContext \<Rightarrow> int \<Rightarrow> int \<Rightarrow> int \<Rightarrow> int \<Rightarrow> error + partition" where
  "greedyFallback ctx xoff xlim yoff ylim =
     (let n = xlim - xoff; m = ylim - yoff
      in bindE (snake_fwd ctx xoff yoff n m 0 0) (\<lambda>(x, y).
           if x > 0
           then Inr \<lparr>xmid = xoff + x, ymid = yoff + y, loMinimal = False, hiMinimal = False\<rparr>
           else if n > 0
           then Inr \<lparr>xmid = xoff + 1, ymid = yoff, loMinimal = False, hiMinimal = False\<rparr>
           else Inr \<lparr>xmid = xoff, ymid = yoff + 1, loMinimal = False, hiMinimal = False\<rparr>))"

definition noSnake :: snakeInfo where
  "noSnake = \<lparr>sn_x = 0, sn_y = 0, sn_len = 0, sn_forward = False\<rparr>"

definition findMiddleSnake ::
  "diffContext \<Rightarrow> int \<Rightarrow> int \<Rightarrow> int \<Rightarrow> int \<Rightarrow> bool \<Rightarrow> error + (partition \<times> diffContext)" where
  "findMiddleSnake ctx xoff xlim yoff ylim findMinimal =
     (let n = xlim - xoff; m = ylim - yoff
      in if n = 0 then Inr (\<lparr>xmid = xoff, ymid = ylim, loMinimal = True, hiMinimal = True\<rparr>, ctx)
         else if m = 0 then Inr (\<lparr>xmid = xlim, ymid = yoff, loMinimal = True, hiMinimal = True\<rparr>, ctx)
         else
           (let delta = n - m; offset = m + 1
            in bindE (upd (fdiag ctx) (offset + 1) 0) (\<lambda>fd.
               bindE (upd (bdiag ctx) (offset + delta - 1) n) (\<lambda>bd.
               let ctx1 = ctx\<lparr>fdiag := fd, bdiag := bd\<rparr>;
                   maxD = quot (n + m + 1) 2;
                   costLimit' = (if ctx_costLimit ctx > 0 \<and> \<not> findMinimal
                                 then (if ctx_costLimit ctx > maxD then maxD else ctx_costLimit ctx)
                                 else maxD);
                   tooExpensive = (if ctx_useHeuristic ctx \<and> \<not> findMinimal
                                   then (let expensive = isqrt n + isqrt m
                                         in if expensive < costLimit' then expensive else costLimit')
                                   else costLimit')
               in bindE (d_loop \<lparr>s_ctx = ctx1, bestSnake = noSnake, bestSnakeScore = 0\<rparr>
                           xoff yoff n m findMinimal maxD costLimit' tooExpensive 0) (\<lambda>r.
                    case r of
                      Return p c \<Rightarrow> Inr (p, c)
                    | Continue s \<Rightarrow>
                        if bestSnakeScore s > 0
                        then Inr (snakeToPartition (bestSnake s) xoff yoff n m, s_ctx s)
                        else bindE (greedyFallback (s_ctx s) xoff xlim yoff ylim) (\<lambda>p.
                               Inr (p, s_ctx s)))))))"

text \<open>\<open>compareSeq\<close>: the two trimming loops, the base cases, and the recursion on both halves.\<close>

function trimPrefix :: "diffContext \<Rightarrow> int \<Rightarrow> int \<Rightarrow> int \<Rightarrow> int \<Rightarrow> error + (int \<times> int)" where
  "trimPrefix ctx xoff xlim yoff ylim =
     (if xoff < xlim \<and> yoff < ylim
      then (case ctx_equal ctx xoff yoff of
              Inl e \<Rightarrow> Inl e
            | Inr eq \<Rightarrow> if eq then trimPrefix ctx (xoff + 1) xlim (yoff + 1) ylim else Inr (xoff, yoff))
      else Inr (xoff, yoff))"
  by pat_completeness auto
termination
  by (relation "measure (\<lambda>(ctx, xoff, xlim, yoff, ylim). nat (xlim - xoff))") auto

declare trimPrefix.simps [simp del]

function trimSuffix :: "diffContext \<Rightarrow> int \<Rightarrow> int \<Rightarrow> int \<Rightarrow> int \<Rightarrow> error + (int \<times> int)" where
  "trimSuffix ctx xoff xlim yoff ylim =
     (if xoff < xlim \<and> yoff < ylim
      then (case ctx_equal ctx (xlim - 1) (ylim - 1) of
              Inl e \<Rightarrow> Inl e
            | Inr eq \<Rightarrow> if eq then trimSuffix ctx xoff (xlim - 1) yoff (ylim - 1) else Inr (xlim, ylim))
      else Inr (xlim, ylim))"
  by pat_completeness auto
termination
  by (relation "measure (\<lambda>(ctx, xoff, xlim, yoff, ylim). nat (xlim - xoff))") auto

declare trimSuffix.simps [simp del]

partial_function (option) compareSeq ::
  "diffContext \<Rightarrow> int \<Rightarrow> int \<Rightarrow> int \<Rightarrow> int \<Rightarrow> bool \<Rightarrow> (error + diffContext) option" where
  "compareSeq ctx xoff xlim yoff ylim findMinimal =
     (case trimPrefix ctx xoff xlim yoff ylim of
        Inl e \<Rightarrow> Some (Inl e)
      | Inr (xoff1, yoff1) \<Rightarrow>
          (case trimSuffix ctx xoff1 xlim yoff1 ylim of
             Inl e \<Rightarrow> Some (Inl e)
           | Inr (xlim1, ylim1) \<Rightarrow>
               if xoff1 = xlim1 then Some (markInserted ctx yoff1 ylim1)
               else if yoff1 = ylim1 then Some (markDeleted ctx xoff1 xlim1)
               else (case findMiddleSnake ctx xoff1 xlim1 yoff1 ylim1 findMinimal of
                       Inl e \<Rightarrow> Some (Inl e)
                     | Inr (part, ctx1) \<Rightarrow>
                         Option.bind (compareSeq ctx1 xoff1 (xmid part) yoff1 (ymid part) (loMinimal part))
                           (\<lambda>r. case r of
                                  Inl e \<Rightarrow> Some (Inl e)
                                | Inr ctx2 \<Rightarrow>
                                    compareSeq ctx2 (xmid part) xlim1 (ymid part) ylim1 (hiMinimal part)))))"

declare compareSeq.simps [code]


text \<open>\<open>buildOps\<close>: one pass of the outer loop takes an Equal run, a Delete run and an Insert
  run. The outer loop has no bound of its own, so it is a partial function.\<close>

function eqRun :: "diffContext \<Rightarrow> int \<Rightarrow> int \<Rightarrow> int \<Rightarrow> int \<Rightarrow> error + (int \<times> int)" where
  "eqRun ctx n m i j =
     (if i < n \<and> j < m
      then (case idx (xchanges ctx) i of
              Inl e \<Rightarrow> Inl e
            | Inr xc \<Rightarrow>
                if xc then Inr (i, j)
                else (case idx (ychanges ctx) j of
                        Inl e \<Rightarrow> Inl e
                      | Inr yc \<Rightarrow> if yc then Inr (i, j) else eqRun ctx n m (i + 1) (j + 1)))
      else Inr (i, j))"
  by pat_completeness auto
termination
  by (relation "measure (\<lambda>(ctx, n, m, i, j). nat (n - i))") auto

declare eqRun.simps [simp del]

function changeRun :: "bool list \<Rightarrow> int \<Rightarrow> int \<Rightarrow> error + int" where
  "changeRun changes n i =
     (if i < n
      then (case idx changes i of
              Inl e \<Rightarrow> Inl e
            | Inr c \<Rightarrow> if c then changeRun changes n (i + 1) else Inr i)
      else Inr i)"
  by pat_completeness auto
termination
  by (relation "measure (\<lambda>(changes, n, i). nat (n - i))") auto

declare changeRun.simps [simp del]

partial_function (option) buildOps_loop ::
  "diffContext \<Rightarrow> int \<Rightarrow> int \<Rightarrow> int \<Rightarrow> int \<Rightarrow> DiffOp list \<Rightarrow> (error + DiffOp list) option" where
  "buildOps_loop ctx n m i j ops =
     (if i < n \<or> j < m
      then (case eqRun ctx n m i j of
              Inl e \<Rightarrow> Some (Inl e)
            | Inr (i1, j1) \<Rightarrow>
                (case changeRun (xchanges ctx) n i1 of
                   Inl e \<Rightarrow> Some (Inl e)
                 | Inr i2 \<Rightarrow>
                     (case changeRun (ychanges ctx) m j1 of
                        Inl e \<Rightarrow> Some (Inl e)
                      | Inr j2 \<Rightarrow>
                          buildOps_loop ctx n m i2 j2
                            (ops
                             @ (if i1 > i then [mkOp Equal i i1 j j1] else [])
                             @ (if i2 > i1 then [mkOp Delete i1 i2 j1 j1] else [])
                             @ (if j2 > j1 then [mkOp Insert i2 i2 j1 j2] else [])))))
      else Some (Inr ops))"

declare buildOps_loop.simps [code]

definition buildOps :: "diffContext \<Rightarrow> (error + DiffOp list) option" where
  "buildOps ctx = buildOps_loop ctx (int (length (xvec ctx))) (int (length (yvec ctx))) 0 0 []"

section \<open>Merging adjacent operations (shift.go \<open>mergeAdjacentOps\<close>, filter.go \<open>mergeOps\<close>)\<close>

fun merge_loop :: "DiffOp \<Rightarrow> DiffOp list \<Rightarrow> DiffOp list \<Rightarrow> DiffOp list" where
  "merge_loop current [] result = result @ [current]"
| "merge_loop current (op # rest) result =
     (if Type current = Type op \<and> AEnd current = AStart op \<and> BEnd current = BStart op
      then merge_loop (current\<lparr>AEnd := AEnd op, BEnd := BEnd op\<rparr>) rest result
      else merge_loop op rest (result @ [current]))"

definition mergeAdjacentOps :: "DiffOp list \<Rightarrow> DiffOp list" where
  "mergeAdjacentOps ops = (case ops of [] \<Rightarrow> ops | [x] \<Rightarrow> ops | current # rest \<Rightarrow> merge_loop current rest [])"

definition mergeOps :: "DiffOp list \<Rightarrow> DiffOp list" where
  "mergeOps ops = (case ops of [] \<Rightarrow> ops | [x] \<Rightarrow> ops | current # rest \<Rightarrow> merge_loop current rest [])"

section \<open>Preprocessing and index remapping (filter.go)\<close>

record indexMapping =
  aToOrig :: "int list"
  bToOrig :: "int list"
  origN :: int
  origM :: int

datatype elementClass = keep | discard | provisional

text \<open>The frequency maps \<open>map[uint64]int\<close>: a missing key reads as 0.\<close>

definition countHashes :: "Element list \<Rightarrow> 64 word \<Rightarrow> int" where
  "countHashes elems = fold (\<lambda>e f. f(Hash e := f (Hash e) + 1)) elems (\<lambda>_. 0)"

definition classify :: "(64 word \<Rightarrow> int) \<Rightarrow> (64 word \<Rightarrow> int) \<Rightarrow> (64 word \<Rightarrow> int) \<Rightarrow> int \<Rightarrow> Element \<Rightarrow> elementClass" where
  "classify aFreq bFreq otherFreq threshold e =
     (let h = Hash e; inOther = otherFreq h > 0; freq = aFreq h + bFreq h
      in if \<not> inOther then discard else if freq > threshold then provisional else keep)"

function filterSequence_loop ::
  "Element list \<Rightarrow> elementClass list \<Rightarrow> int \<Rightarrow> Element list \<Rightarrow> int list \<Rightarrow> error + (Element list \<times> int list)" where
  "filterSequence_loop elems classes i result toOrig =
     (if i < int (length classes)
      then (case idx classes i of
              Inl e \<Rightarrow> Inl e
            | Inr keep \<Rightarrow>
                (case idx elems i of
                   Inl e \<Rightarrow> Inl e
                 | Inr el \<Rightarrow> filterSequence_loop elems classes (i + 1) (result @ [el]) (toOrig @ [i]))
            | Inr provisional \<Rightarrow>
                (case (if i = 0 then Inr False
                       else bindE (idx classes (i - 1)) (\<lambda>c. Inr (c = keep))) of
                   Inl e \<Rightarrow> Inl e
                 | Inr prevKeep \<Rightarrow>
                     (case (if i = int (length classes) - 1 then Inr False
                            else bindE (idx classes (i + 1)) (\<lambda>c. Inr (c = keep))) of
                        Inl e \<Rightarrow> Inl e
                      | Inr nextKeep \<Rightarrow>
                          if prevKeep \<or> nextKeep
                          then (case idx elems i of
                                  Inl e \<Rightarrow> Inl e
                                | Inr el \<Rightarrow>
                                    filterSequence_loop elems classes (i + 1) (result @ [el]) (toOrig @ [i]))
                          else filterSequence_loop elems classes (i + 1) result toOrig))
            | Inr discard \<Rightarrow> filterSequence_loop elems classes (i + 1) result toOrig)
      else Inr (result, toOrig))"
  by pat_completeness auto
termination
  by (relation "measure (\<lambda>(elems, classes, i, result, toOrig). nat (int (length classes) - i))") auto

declare filterSequence_loop.simps [simp del]

definition filterSequence :: "Element list \<Rightarrow> elementClass list \<Rightarrow> error + (Element list \<times> int list)" where
  "filterSequence elems classes = filterSequence_loop elems classes 0 [] []"

definition filterConfusingElements ::
  "Element list \<Rightarrow> Element list \<Rightarrow> error + (Element list \<times> Element list \<times> indexMapping option)" where
  "filterConfusingElements a b =
     (if length a = 0 \<or> length b = 0 then Inr (a, b, None)
      else
        (let aFreq = countHashes a; bFreq = countHashes b;
             n = int (length a); m = int (length b);
             t = 5 + quot (n + m) 64;
             threshold = (if t < 8 then 8 else t);
             aClass = map (classify aFreq bFreq bFreq threshold) a;
             bClass = map (classify aFreq bFreq aFreq threshold) b;
             keepCount = int (length (filter (\<lambda>c. c = keep) aClass))
                       + int (length (filter (\<lambda>c. c = keep) bClass))
         in if keepCount > quot ((n + m) * 3) 4 then Inr (a, b, None)
            else
              bindE (filterSequence a aClass) (\<lambda>(filteredA, aTo).
              bindE (filterSequence b bClass) (\<lambda>(filteredB, bTo).
              if length filteredA = 0 \<and> length filteredB = 0 then Inr (a, b, None)
              else Inr (filteredA, filteredB,
                        Some \<lparr>aToOrig = aTo, bToOrig = bTo, origN = n, origM = m\<rparr>)))))"

text \<open>\<open>mapOps\<close>, the version that expands every operation element by element and fills the
  gaps left by the filtered-out elements. The state of its loops is the result so far
  and the positions \<open>aPos\<close>, \<open>bPos\<close> in the original sequences.\<close>

function mapEqual ::
  "indexMapping \<Rightarrow> DiffOp \<Rightarrow> int \<Rightarrow> DiffOp list \<times> int \<times> int \<Rightarrow> error + (DiffOp list \<times> int \<times> int)" where
  "mapEqual mp op i st =
     (if i < AEnd op
      then (case st of (result, aPos, bPos) \<Rightarrow>
              (case idx (aToOrig mp) i of
                 Inl e \<Rightarrow> Inl e
               | Inr origAIdx \<Rightarrow>
                   (case idx (bToOrig mp) (BStart op + (i - AStart op)) of
                      Inl e \<Rightarrow> Inl e
                    | Inr origBIdx \<Rightarrow>
                        mapEqual mp op (i + 1)
                          (let r1 = (if origAIdx > aPos
                                     then result @ [mkOp Delete aPos origAIdx bPos bPos] else result);
                               aPos1 = (if origAIdx > aPos then origAIdx else aPos);
                               r2 = (if origBIdx > bPos
                                     then r1 @ [mkOp Insert aPos1 aPos1 bPos origBIdx] else r1)
                           in (r2 @ [mkOp Equal origAIdx (origAIdx + 1) origBIdx (origBIdx + 1)],
                               origAIdx + 1, origBIdx + 1)))))
      else Inr st)"
  by pat_completeness auto
termination
  by (relation "measure (\<lambda>(mp, op, i, st). nat (AEnd op - i))") auto

declare mapEqual.simps [simp del]

function mapDelete ::
  "indexMapping \<Rightarrow> DiffOp \<Rightarrow> int \<Rightarrow> DiffOp list \<times> int \<times> int \<Rightarrow> error + (DiffOp list \<times> int \<times> int)" where
  "mapDelete mp op i st =
     (if i < AEnd op
      then (case st of (result, aPos, bPos) \<Rightarrow>
              (case idx (aToOrig mp) i of
                 Inl e \<Rightarrow> Inl e
               | Inr origAIdx \<Rightarrow>
                   mapDelete mp op (i + 1)
                     ((if origAIdx > aPos
                       then result @ [mkOp Delete aPos origAIdx bPos bPos] else result)
                      @ [mkOp Delete origAIdx (origAIdx + 1) bPos bPos],
                      origAIdx + 1, bPos)))
      else Inr st)"
  by pat_completeness auto
termination
  by (relation "measure (\<lambda>(mp, op, i, st). nat (AEnd op - i))") auto

declare mapDelete.simps [simp del]

function mapInsert ::
  "indexMapping \<Rightarrow> DiffOp \<Rightarrow> int \<Rightarrow> DiffOp list \<times> int \<times> int \<Rightarrow> error + (DiffOp list \<times> int \<times> int)" where
  "mapInsert mp op i st =
     (if i < BEnd op
      then (case st of (result, aPos, bPos) \<Rightarrow>
              (case idx (bToOrig mp) i of
                 Inl e \<Rightarrow> Inl e
               | Inr origBIdx \<Rightarrow>
                   mapInsert mp op (i + 1)
                     ((if origBIdx > bPos
                       then result @ [mkOp Insert aPos aPos bPos origBIdx] else result)
                      @ [mkOp Insert aPos aPos origBIdx (origBIdx + 1)],
                      aPos, origBIdx + 1)))
      else Inr st)"
  by pat_completeness auto
termination
  by (relation "measure (\<lambda>(mp, op, i, st). nat (BEnd op - i))") auto

declare mapInsert.simps [simp del]

fun mapOps_loop ::
  "indexMapping \<Rightarrow> DiffOp list \<Rightarrow> DiffOp list \<times> int \<times> int \<Rightarrow> error + (DiffOp list \<times> int \<times> int)" where
  "mapOps_loop mp [] st = Inr st"
| "mapOps_loop mp (op # ops) st =
     (case (case Type op of
              Equal \<Rightarrow> mapEqual mp op (AStart op) st
            | Delete \<Rightarrow> mapDelete mp op (AStart op) st
            | Insert \<Rightarrow> mapInsert mp op (BStart op) st) of
        Inl e \<Rightarrow> Inl e
      | Inr st' \<Rightarrow> mapOps_loop mp ops st')"

definition mapOps :: "indexMapping option \<Rightarrow> DiffOp list \<Rightarrow> error + DiffOp list" where
  "mapOps mo ops =
     (case mo of
        None \<Rightarrow> Inr ops
      | Some mp \<Rightarrow>
          bindE (mapOps_loop mp ops ([], 0, 0)) (\<lambda>(result, aPos, bPos).
            let r1 = (if aPos < origN mp
                      then result @ [mkOp Delete aPos (origN mp) bPos bPos] else result);
                r2 = (if bPos < origM mp
                      then r1 @ [mkOp Insert (origN mp) (origN mp) bPos (origM mp)] else r1)
            in Inr (mergeOps r2)))"


section \<open>Boundary shifting (shift.go)\<close>

text \<open>\<open>strings.TrimSpace\<close> on the ASCII white space (tab, line feed, vertical tab, form
  feed, carriage return, space); the other Unicode spaces are not modelled.\<close>

definition isSpace :: "char \<Rightarrow> bool" where
  "isSpace c = (c \<in> set [CHR 0x09, CHR 0x0A, CHR 0x0B, CHR 0x0C, CHR 0x0D, CHR '' ''])"

definition TrimSpace :: "string \<Rightarrow> string" where
  "TrimSpace s = rev (dropWhile isSpace (rev (dropWhile isSpace s)))"

definition isBlank :: "Element \<Rightarrow> bool" where
  "isBlank e = (case e of StringElement s \<Rightarrow> TrimSpace s = [] | CustomElement _ _ \<Rightarrow> False)"

definition endsWithPunctuation :: "Element \<Rightarrow> bool" where
  "endsWithPunctuation e =
     (case e of
        StringElement s \<Rightarrow>
          (let str = TrimSpace s
           in if length str = 0 then False
              else last str \<in> set [CHR ''.'', CHR ''!'', CHR ''?'', CHR '':'', CHR '';''])
      | CustomElement _ _ \<Rightarrow> False)"

definition startsWithPunctuation :: "Element \<Rightarrow> bool" where
  "startsWithPunctuation e =
     (case e of
        StringElement s \<Rightarrow>
          (let str = TrimSpace s
           in if length str = 0 then False
              else hd str \<in> set [CHR ''-'', CHR ''*'', CHR ''#'', CHR ''>''])
      | CustomElement _ _ \<Rightarrow> False)"

definition blankLineBonus :: int where "blankLineBonus = 10"
definition startOfLineBonus :: int where "startOfLineBonus = 3"
definition endOfLineBonus :: int where "endOfLineBonus = 3"
definition punctuationBonus :: int where "punctuationBonus = 2"

definition scoreBoundary :: "int \<Rightarrow> int \<Rightarrow> Element list \<Rightarrow> error + int" where
  "scoreBoundary start end' elems =
     (let len = int (length elems)
      in bindE (if start > 0 then bindE (idx elems (start - 1)) (\<lambda>e. Inr (isBlank e)) else Inr False) (\<lambda>c1.
         bindE (if end' < len then bindE (idx elems end') (\<lambda>e. Inr (isBlank e)) else Inr False) (\<lambda>c2.
         bindE (if start > 0 then bindE (idx elems (start - 1)) (\<lambda>e. Inr (endsWithPunctuation e))
                else Inr False) (\<lambda>c5.
         bindE (if end' < len then bindE (idx elems end') (\<lambda>e. Inr (startsWithPunctuation e))
                else Inr False) (\<lambda>c6.
         Inr ((if c1 then blankLineBonus else 0)
            + (if c2 then blankLineBonus else 0)
            + (if start = 0 then startOfLineBonus else 0)
            + (if end' = len then endOfLineBonus else 0)
            + (if c5 then punctuationBonus else 0)
            + (if c6 then punctuationBonus else 0)))))))"

text \<open>The four loops of \<open>shiftDelete\<close> and \<open>shiftInsert\<close>, over the sequence the operation
  ranges in (\<open>a\<close> for a Delete, \<open>b\<close> for an Insert) and the range \<open>[start, end)\<close>.\<close>

function maxShiftForward :: "Element list \<Rightarrow> int \<Rightarrow> int \<Rightarrow> int \<Rightarrow> int \<Rightarrow> error + int" where
  "maxShiftForward elems start end' i acc =
     (if end' + i < int (length elems)
      then (case idx elems (start + i) of
              Inl e \<Rightarrow> Inl e
            | Inr u \<Rightarrow>
                (case idx elems (end' + i) of
                   Inl e \<Rightarrow> Inl e
                 | Inr v \<Rightarrow>
                     if \<not> ElemEqual u v then Inr acc
                     else maxShiftForward elems start end' (i + 1) (i + 1)))
      else Inr acc)"
  by pat_completeness auto
termination
  by (relation "measure (\<lambda>(elems, start, end', i, acc). nat (int (length elems) - end' - i))") auto

declare maxShiftForward.simps [simp del]

function maxShiftBackward :: "Element list \<Rightarrow> int \<Rightarrow> int \<Rightarrow> int \<Rightarrow> int \<Rightarrow> error + int" where
  "maxShiftBackward elems start end' i acc =
     (if start - i - 1 \<ge> 0
      then (case idx elems (end' - i - 1) of
              Inl e \<Rightarrow> Inl e
            | Inr u \<Rightarrow>
                (case idx elems (start - i - 1) of
                   Inl e \<Rightarrow> Inl e
                 | Inr v \<Rightarrow>
                     if \<not> ElemEqual u v then Inr acc
                     else maxShiftBackward elems start end' (i + 1) (i + 1)))
      else Inr acc)"
  by pat_completeness auto
termination
  by (relation "measure (\<lambda>(elems, start, end', i, acc). nat (start - i))") auto

declare maxShiftBackward.simps [simp del]

function tryShifts :: "Element list \<Rightarrow> int \<Rightarrow> int \<Rightarrow> int \<Rightarrow> int \<Rightarrow> int \<Rightarrow> int \<times> int \<Rightarrow> error + (int \<times> int)" where
  "tryShifts elems start end' dir shift maxShift best =
     (if shift \<le> maxShift
      then (case scoreBoundary (start + dir * shift) (end' + dir * shift) elems of
              Inl e \<Rightarrow> Inl e
            | Inr score \<Rightarrow>
                tryShifts elems start end' dir (shift + 1) maxShift
                  (case best of (bestShift, bestScore) \<Rightarrow>
                     if score > bestScore then (dir * shift, score) else (bestShift, bestScore)))
      else Inr best)"
  by pat_completeness auto
termination
  by (relation "measure (\<lambda>(elems, start, end', dir, shift, maxShift, best). nat (maxShift + 1 - shift))") auto

declare tryShifts.simps [simp del]

definition bestShiftOf :: "Element list \<Rightarrow> int \<Rightarrow> int \<Rightarrow> error + int" where
  "bestShiftOf elems start end' =
     bindE (maxShiftForward elems start end' 0 0) (\<lambda>maxF.
     bindE (maxShiftBackward elems start end' 0 0) (\<lambda>maxB.
     if maxF = 0 \<and> maxB = 0 then Inr 0
     else
       bindE (scoreBoundary start end' elems) (\<lambda>score0.
       bindE (tryShifts elems start end' 1 1 maxF (0, score0)) (\<lambda>best1.
       bindE (tryShifts elems start end' (- 1) 1 maxB best1) (\<lambda>(bestShift, bestScore).
       Inr bestShift)))))"

definition shiftDelete :: "DiffOp \<Rightarrow> Element list \<Rightarrow> Element list \<Rightarrow> error + DiffOp" where
  "shiftDelete op a b =
     (if AEnd op - AStart op = 0 then Inr op
      else bindE (bestShiftOf a (AStart op) (AEnd op)) (\<lambda>bestShift.
             if bestShift = 0 then Inr op
             else Inr (mkOp Delete (AStart op + bestShift) (AEnd op + bestShift) (BStart op) (BEnd op))))"

definition shiftInsert :: "DiffOp \<Rightarrow> Element list \<Rightarrow> Element list \<Rightarrow> error + DiffOp" where
  "shiftInsert op a b =
     (if BEnd op - BStart op = 0 then Inr op
      else bindE (bestShiftOf b (BStart op) (BEnd op)) (\<lambda>bestShift.
             if bestShift = 0 then Inr op
             else Inr (mkOp Insert (AStart op) (AEnd op) (BStart op + bestShift) (BEnd op + bestShift))))"

definition shiftOp :: "DiffOp \<Rightarrow> Element list \<Rightarrow> Element list \<Rightarrow> error + DiffOp" where
  "shiftOp op a b =
     (case Type op of
        Delete \<Rightarrow> shiftDelete op a b
      | Insert \<Rightarrow> shiftInsert op a b
      | Equal \<Rightarrow> Inr op)"

fun shiftAll :: "DiffOp list \<Rightarrow> Element list \<Rightarrow> Element list \<Rightarrow> DiffOp list \<Rightarrow> error + DiffOp list" where
  "shiftAll [] a b result = Inr result"
| "shiftAll (op # ops) a b result =
     (if Type op = Equal then shiftAll ops a b (result @ [op])
      else (case shiftOp op a b of
              Inl e \<Rightarrow> Inl e
            | Inr shifted \<Rightarrow> shiftAll ops a b (result @ [shifted])))"

definition tryShiftEqualBoundary :: "DiffOp \<Rightarrow> DiffOp \<Rightarrow> Element list \<Rightarrow> Element list \<Rightarrow> DiffOp \<times> DiffOp" where
  "tryShiftEqualBoundary eq change a b =
     (if AEnd eq - AStart eq = 0 then (eq, change)
      else (let lastEqA = AEnd eq - 1
            in if lastEqA < 0 \<or> lastEqA \<ge> int (length a) then (eq, change)
               else (eq, change)))"

definition tryShiftChangeBoundary :: "DiffOp \<Rightarrow> DiffOp \<Rightarrow> Element list \<Rightarrow> Element list \<Rightarrow> DiffOp \<times> DiffOp" where
  "tryShiftChangeBoundary change eq a b =
     (if AEnd eq - AStart eq = 0 then (change, eq) else (change, eq))"

function optimize_loop :: "DiffOp list \<Rightarrow> Element list \<Rightarrow> Element list \<Rightarrow> nat \<Rightarrow> DiffOp list" where
  "optimize_loop result a b i =
     (if i + 1 < length result
      then (let curr = result ! i; next = result ! (i + 1);
                r1 = (if Type curr = Equal \<and> (Type next = Delete \<or> Type next = Insert)
                      then (case tryShiftEqualBoundary curr next a b of
                              (u, v) \<Rightarrow> result[i := u, i + 1 := v])
                      else result);
                r2 = (if (Type curr = Delete \<or> Type curr = Insert) \<and> Type next = Equal
                      then (case tryShiftChangeBoundary curr next a b of
                              (u, v) \<Rightarrow> r1[i := u, i + 1 := v])
                      else r1)
            in optimize_loop r2 a b (i + 1))
      else result)"
  by pat_completeness auto
termination
  by (relation "measure (\<lambda>(result, a, b, i). length result - i)")
     (auto simp: Let_def split: prod.splits)

declare optimize_loop.simps [simp del]

definition optimizeBoundaries :: "DiffOp list \<Rightarrow> Element list \<Rightarrow> Element list \<Rightarrow> DiffOp list" where
  "optimizeBoundaries ops a b = (if length ops < 2 then ops else optimize_loop ops a b 0)"

definition shiftBoundaries :: "DiffOp list \<Rightarrow> Element list \<Rightarrow> Element list \<Rightarrow> error + DiffOp list" where
  "shiftBoundaries ops a b =
     (if length ops = 0 then Inr ops
      else bindE (shiftAll ops a b []) (\<lambda>result.
             Inr (optimizeBoundaries (mergeAdjacentOps result) a b)))"

section \<open>The Myers driver (diffx.go)\<close>

text \<open>
  \<open>DiffElements\<close> applies the options to the defaults and runs the pipeline, \<open>diffWith\<close>
  here. The parameters \<open>a\<close> and \<open>b\<close> are reassigned by the preprocessing step: from there
  on, \<open>a'\<close> and \<open>b'\<close> below are the sequences that every later statement of the source
  calls \<open>a\<close> and \<open>b\<close>.
\<close>

definition diffWith :: "options \<Rightarrow> Element list \<Rightarrow> Element list \<Rightarrow> (error + DiffOp list) option" where
  "diffWith o' a b =
     (if length a = 0 \<and> length b = 0 then Some (Inr [])
      else if length a = 0 then Some (Inr [mkOp Insert 0 0 0 (int (length b))])
      else if length b = 0 then Some (Inr [mkOp Delete 0 (int (length a)) 0 0])
      else
        (case (if preprocessing o' then filterConfusingElements a b else Inr (a, b, None)) of
           Inl e \<Rightarrow> Some (Inl e)
         | Inr (a', b', mapping) \<Rightarrow>
             Option.bind
               (if length a' > 0 \<or> length b' > 0
                then compareSeq (newDiffContext a' b' o') 0 (int (length a')) 0 (int (length b'))
                       (forceMinimal o')
                else Some (Inr (newDiffContext a b o')))
               (\<lambda>r. case r of
                      Inl e \<Rightarrow> Some (Inl e)
                    | Inr ctx \<Rightarrow>
                        Option.bind (buildOps ctx)
                          (\<lambda>r'. case r' of
                                  Inl e \<Rightarrow> Some (Inl e)
                                | Inr ops \<Rightarrow>
                                    (case mapOps mapping ops of
                                       Inl e \<Rightarrow> Some (Inl e)
                                     | Inr ops1 \<Rightarrow>
                                         if postprocessing o'
                                         then Some (shiftBoundaries ops1 a' b')
                                         else Some (Inr ops1))))))"

definition DiffElements :: "Element list \<Rightarrow> Element list \<Rightarrow> Option list \<Rightarrow> (error + DiffOp list) option" where
  "DiffElements a b opts = diffWith (applyOptions opts) a b"

definition Diff :: "string list \<Rightarrow> string list \<Rightarrow> Option list \<Rightarrow> (error + DiffOp list) option" where
  "Diff a b opts = DiffElements (toElements a) (toElements b) opts"


section \<open>The histogram driver (histogram.go, anchor.go)\<close>

record histogramOptions =
  maxChainLength :: int
  fallbackToMyers :: bool
  filterStopwords :: bool

definition defaultHistogramOptions :: histogramOptions where
  "defaultHistogramOptions = \<lparr>maxChainLength = 64, fallbackToMyers = True, filterStopwords = True\<rparr>"

definition stopwords :: "string list" where
  "stopwords = [''a'', ''an'', ''the'', ''in'', ''on'', ''to'', ''for'', ''of'', ''with'',
                ''and'', ''or'', ''is'', ''are'', ''be'']"

definition isStopword :: "Element \<Rightarrow> bool" where
  "isStopword e = (case e of StringElement s \<Rightarrow> s \<in> set stopwords | CustomElement _ _ \<Rightarrow> False)"

text \<open>\<open>myersFallback\<close>: a fresh context from fresh default options, never the caller's.\<close>

definition shiftOffsets :: "int \<Rightarrow> int \<Rightarrow> DiffOp \<Rightarrow> DiffOp" where
  "shiftOffsets aOffset bOffset op =
     op\<lparr>AStart := AStart op + aOffset, AEnd := AEnd op + aOffset,
        BStart := BStart op + bOffset, BEnd := BEnd op + bOffset\<rparr>"

definition myersFallback :: "Element list \<Rightarrow> Element list \<Rightarrow> int \<Rightarrow> int \<Rightarrow> (error + DiffOp list) option" where
  "myersFallback a b aOffset bOffset =
     (let o' = defaultOptions\<lparr>preprocessing := False, postprocessing := False,
                              anchorElimination := False\<rparr>;
          ctx = newDiffContext a b o'
      in Option.bind (compareSeq ctx 0 (int (length a)) 0 (int (length b)) False)
           (\<lambda>r. case r of
                  Inl e \<Rightarrow> Some (Inl e)
                | Inr ctx1 \<Rightarrow>
                    Option.bind (buildOps ctx1)
                      (\<lambda>r'. case r' of
                              Inl e \<Rightarrow> Some (Inl e)
                            | Inr ops \<Rightarrow> Some (Inr (map (shiftOffsets aOffset bOffset) ops)))))"

text \<open>
  Anchor selection. The index map \<open>aIndices\<close> lists, for a hash, the positions of \<open>a\<close>
  with that hash in ascending order. Positions obtained by ranging over a slice are in
  range by construction and are read with \<open>!\<close>. The scores are \<open>float64\<close> in the source
  and exact reals here.
\<close>

definition indicesOf :: "Element list \<Rightarrow> 64 word \<Rightarrow> nat list" where
  "indicesOf a = fold (\<lambda>i f. f(Hash (a ! i) := f (Hash (a ! i)) @ [i])) [0..<length a] (\<lambda>_. [])"

definition bestImbalance :: "Element list \<Rightarrow> nat list \<Rightarrow> Element \<Rightarrow> real \<Rightarrow> real" where
  "bestImbalance a cands e bRatio =
     fold (\<lambda>aIdx best.
             if \<not> ElemEqual (a ! aIdx) e then best
             else (let aRatio = real aIdx / real (length a);
                       imbalance = \<bar>aRatio - bRatio\<bar>
                   in if imbalance < best then imbalance else best))
          cands 2"

definition selectAnchor :: "Element list \<Rightarrow> Element list \<Rightarrow> histogramOptions \<Rightarrow> int \<times> real \<times> 64 word" where
  "selectAnchor a b opts =
     (let aFreq = countHashes a; aIndices = indicesOf a
      in fold (\<lambda>i (bestIdx, bestScore, bestHash).
                 let e = b ! i
                 in if filterStopwords opts \<and> isStopword e then (bestIdx, bestScore, bestHash)
                    else
                      (let h = Hash e; freq = aFreq h
                       in if freq \<le> 0 \<or> freq > maxChainLength opts then (bestIdx, bestScore, bestHash)
                          else
                            (let bRatio = real i / real (length b);
                                 bestPosImbalance = bestImbalance a (aIndices h) e bRatio
                             in if bestPosImbalance > 1.5 then (bestIdx, bestScore, bestHash)
                                else
                                  (let score = real_of_int freq * (1 + bestPosImbalance * 2)
                                   in if score < bestScore then (int i, score, h)
                                      else (bestIdx, bestScore, bestHash)))))
              [0..<length b] (- 1, real_of_int (maxChainLength opts + 1) * 3, 0))"

definition matchPosition :: "Element list \<Rightarrow> nat list \<Rightarrow> Element \<Rightarrow> real \<Rightarrow> int" where
  "matchPosition a cands e bRatio =
     fst (fold (\<lambda>i (aMatchIdx, bestRatioDiff).
                  if \<not> ElemEqual (a ! i) e then (aMatchIdx, bestRatioDiff)
                  else (let aRatio = real i / real (length a);
                            ratioDiff = \<bar>aRatio - bRatio\<bar>
                        in if ratioDiff < bestRatioDiff then (int i, ratioDiff)
                           else (aMatchIdx, bestRatioDiff)))
               cands (- 1, 2))"

function extendBackward :: "Element list \<Rightarrow> Element list \<Rightarrow> int \<Rightarrow> int \<Rightarrow> error + (int \<times> int)" where
  "extendBackward a b i j =
     (if i > 0 \<and> j > 0
      then (case idx a (i - 1) of
              Inl e \<Rightarrow> Inl e
            | Inr u \<Rightarrow>
                (case idx b (j - 1) of
                   Inl e \<Rightarrow> Inl e
                 | Inr v \<Rightarrow> if ElemEqual u v then extendBackward a b (i - 1) (j - 1) else Inr (i, j)))
      else Inr (i, j))"
  by pat_completeness auto
termination
  by (relation "measure (\<lambda>(a, b, i, j). nat i)") auto

declare extendBackward.simps [simp del]

function extendForward :: "Element list \<Rightarrow> Element list \<Rightarrow> int \<Rightarrow> int \<Rightarrow> error + (int \<times> int)" where
  "extendForward a b i j =
     (if i < int (length a) \<and> j < int (length b)
      then (case idx a i of
              Inl e \<Rightarrow> Inl e
            | Inr u \<Rightarrow>
                (case idx b j of
                   Inl e \<Rightarrow> Inl e
                 | Inr v \<Rightarrow> if ElemEqual u v then extendForward a b (i + 1) (j + 1) else Inr (i, j)))
      else Inr (i, j))"
  by pat_completeness auto
termination
  by (relation "measure (\<lambda>(a, b, i, j). nat (int (length a) - i))") auto

declare extendForward.simps [simp del]

definition noAnchor :: "Element list \<Rightarrow> Element list \<Rightarrow> int \<Rightarrow> int \<Rightarrow> histogramOptions \<Rightarrow> (error + DiffOp list) option" where
  "noAnchor a b aOffset bOffset opts =
     (if fallbackToMyers opts then myersFallback a b aOffset bOffset
      else Some (Inr [mkOp Delete aOffset (aOffset + int (length a)) bOffset bOffset,
                      mkOp Insert (aOffset + int (length a)) (aOffset + int (length a))
                        bOffset (bOffset + int (length b))]))"

partial_function (option) histogramDiffRecursive ::
  "Element list \<Rightarrow> Element list \<Rightarrow> int \<Rightarrow> int \<Rightarrow> histogramOptions \<Rightarrow> (error + DiffOp list) option" where
  "histogramDiffRecursive a b aOffset bOffset opts =
     (if length a = 0 \<and> length b = 0 then Some (Inr [])
      else if length a = 0
      then Some (Inr [mkOp Insert aOffset aOffset bOffset (bOffset + int (length b))])
      else if length b = 0
      then Some (Inr [mkOp Delete aOffset (aOffset + int (length a)) bOffset bOffset])
      else
        (case selectAnchor a b opts of
           (bestIdx, bestScore, bestHash) \<Rightarrow>
             if bestIdx = - 1 then noAnchor a b aOffset bOffset opts
             else
               (let bRatio = real_of_int bestIdx / real (length b);
                    aMatchIdx = matchPosition a (indicesOf a bestHash) (b ! nat bestIdx) bRatio
                in if aMatchIdx = - 1 then noAnchor a b aOffset bOffset opts
                   else
                     (case extendBackward a b aMatchIdx bestIdx of
                        Inl e \<Rightarrow> Some (Inl e)
                      | Inr (matchStartA, matchStartB) \<Rightarrow>
                          (case extendForward a b (aMatchIdx + 1) (bestIdx + 1) of
                             Inl e \<Rightarrow> Some (Inl e)
                           | Inr (matchEndA, matchEndB) \<Rightarrow>
                               Option.bind
                                 (if matchStartA > 0 \<or> matchStartB > 0
                                  then histogramDiffRecursive (take (nat matchStartA) a)
                                         (take (nat matchStartB) b) aOffset bOffset opts
                                  else Some (Inr []))
                                 (\<lambda>r. case r of
                                        Inl e \<Rightarrow> Some (Inl e)
                                      | Inr beforeOps \<Rightarrow>
                                          Option.bind
                                            (if matchEndA < int (length a) \<or> matchEndB < int (length b)
                                             then histogramDiffRecursive (drop (nat matchEndA) a)
                                                    (drop (nat matchEndB) b)
                                                    (aOffset + matchEndA) (bOffset + matchEndB) opts
                                             else Some (Inr []))
                                            (\<lambda>r'. case r' of
                                                    Inl e \<Rightarrow> Some (Inl e)
                                                  | Inr afterOps \<Rightarrow>
                                                      Some (Inr (beforeOps
                                                        @ [mkOp Equal (aOffset + matchStartA) (aOffset + matchEndA)
                                                             (bOffset + matchStartB) (bOffset + matchEndB)]
                                                        @ afterOps)))))))))"

declare histogramDiffRecursive.simps [code]

function commonPrefix :: "Element list \<Rightarrow> Element list \<Rightarrow> int \<Rightarrow> error + int" where
  "commonPrefix a b prefixLen =
     (if prefixLen < int (length a) \<and> prefixLen < int (length b)
      then (case idx a prefixLen of
              Inl e \<Rightarrow> Inl e
            | Inr u \<Rightarrow>
                (case idx b prefixLen of
                   Inl e \<Rightarrow> Inl e
                 | Inr v \<Rightarrow> if ElemEqual u v then commonPrefix a b (prefixLen + 1) else Inr prefixLen))
      else Inr prefixLen)"
  by pat_completeness auto
termination
  by (relation "measure (\<lambda>(a, b, p). nat (int (length a) - p))") auto

declare commonPrefix.simps [simp del]

function commonSuffix :: "Element list \<Rightarrow> Element list \<Rightarrow> int \<Rightarrow> int \<Rightarrow> error + int" where
  "commonSuffix a b prefixLen suffixLen =
     (if suffixLen < int (length a) - prefixLen \<and> suffixLen < int (length b) - prefixLen
      then (case idx a (int (length a) - 1 - suffixLen) of
              Inl e \<Rightarrow> Inl e
            | Inr u \<Rightarrow>
                (case idx b (int (length b) - 1 - suffixLen) of
                   Inl e \<Rightarrow> Inl e
                 | Inr v \<Rightarrow>
                     if ElemEqual u v then commonSuffix a b prefixLen (suffixLen + 1)
                     else Inr suffixLen))
      else Inr suffixLen)"
  by pat_completeness auto
termination
  by (relation "measure (\<lambda>(a, b, p, s). nat (int (length a) - p - s))") auto

declare commonSuffix.simps [simp del]

definition histogramDiff :: "Element list \<Rightarrow> Element list \<Rightarrow> histogramOptions \<Rightarrow> (error + DiffOp list) option" where
  "histogramDiff a b opts =
     (let la = int (length a); lb = int (length b)
      in if la = 0 \<and> lb = 0 then Some (Inr [])
         else if la = 0 then Some (Inr [mkOp Insert 0 0 0 lb])
         else if lb = 0 then Some (Inr [mkOp Delete 0 la 0 0])
         else
           (case commonPrefix a b 0 of
              Inl e \<Rightarrow> Some (Inl e)
            | Inr prefixLen \<Rightarrow>
                (case commonSuffix a b prefixLen 0 of
                   Inl e \<Rightarrow> Some (Inl e)
                 | Inr suffixLen \<Rightarrow>
                     if prefixLen + suffixLen \<ge> la \<and> prefixLen + suffixLen \<ge> lb
                     then Some (Inr [mkOp Equal 0 la 0 lb])
                     else
                       Option.bind
                         (histogramDiffRecursive
                            (take (nat (la - suffixLen - prefixLen)) (drop (nat prefixLen) a))
                            (take (nat (lb - suffixLen - prefixLen)) (drop (nat prefixLen) b))
                            prefixLen prefixLen opts)
                         (\<lambda>r. case r of
                                Inl e \<Rightarrow> Some (Inl e)
                              | Inr middleOps \<Rightarrow>
                                  Some (Inr (mergeAdjacentOps
                                    ((if prefixLen > 0 then [mkOp Equal 0 prefixLen 0 prefixLen] else [])
                                     @ middleOps
                                     @ (if suffixLen > 0
                                        then [mkOp Equal (la - suffixLen) la (lb - suffixLen) lb]
                                        else []))))))))"

definition eliminateWeakAnchors :: "DiffOp list \<Rightarrow> Element list \<Rightarrow> Element list \<Rightarrow> DiffOp list" where
  "eliminateWeakAnchors ops a b = (if length ops < 2 then ops else mergeAdjacentOps ops)"

definition histogramWith :: "options \<Rightarrow> Element list \<Rightarrow> Element list \<Rightarrow> (error + DiffOp list) option" where
  "histogramWith o' a b =
     (let histOpts = defaultHistogramOptions
      in Option.bind (histogramDiff a b histOpts)
           (\<lambda>r. case r of
                  Inl e \<Rightarrow> Some (Inl e)
                | Inr ops \<Rightarrow>
                    (let ops1 = (if anchorElimination o' then eliminateWeakAnchors ops a b else ops)
                     in if postprocessing o' then Some (shiftBoundaries ops1 a b)
                        else Some (Inr ops1))))"

definition DiffElementsHistogram :: "Element list \<Rightarrow> Element list \<Rightarrow> Option list \<Rightarrow> (error + DiffOp list) option" where
  "DiffElementsHistogram a b opts = histogramWith (applyOptions opts) a b"

definition DiffHistogram :: "string list \<Rightarrow> string list \<Rightarrow> Option list \<Rightarrow> (error + DiffOp list) option" where
  "DiffHistogram a b opts = DiffElementsHistogram (toElements a) (toElements b) opts"


section \<open>Properties of operation lists\<close>

text \<open>\<open>applyDiff\<close> (diffx_test.go): the slices of \<open>a\<close> for Equal, of \<open>b\<close> for Insert, nothing
  for Delete, concatenated in order.\<close>

definition slice :: "'a list \<Rightarrow> int \<Rightarrow> int \<Rightarrow> 'a list" where
  "slice xs s e = take (nat (e - s)) (drop (nat s) xs)"

definition applyDiff :: "'a list \<Rightarrow> 'a list \<Rightarrow> DiffOp list \<Rightarrow> 'a list" where
  "applyDiff a b ops =
     concat (map (\<lambda>op. case Type op of
                          Equal \<Rightarrow> slice a (AStart op) (AEnd op)
                        | Delete \<Rightarrow> []
                        | Insert \<Rightarrow> slice b (BStart op) (BEnd op)) ops)"

text \<open>The positions of \<open>a\<close> that the Equal and Delete operations range over, and the positions
  of \<open>b\<close> that the Equal and Insert operations range over, in the order of the list.\<close>

definition coveredA :: "DiffOp list \<Rightarrow> int list" where
  "coveredA ops = concat (map (\<lambda>op. if Type op = Insert then [] else [AStart op..AEnd op - 1]) ops)"

definition coveredB :: "DiffOp list \<Rightarrow> int list" where
  "coveredB ops = concat (map (\<lambda>op. if Type op = Delete then [] else [BStart op..BEnd op - 1]) ops)"

fun contiguous :: "DiffOp list \<Rightarrow> bool" where
  "contiguous (op # op' # ops) = (AEnd op = AStart op' \<and> BEnd op = BStart op' \<and> contiguous (op' # ops))"
| "contiguous _ = True"

text \<open>Canonical merged form: no two neighbours of the same type touch in both coordinates.\<close>

fun canonical :: "DiffOp list \<Rightarrow> bool" where
  "canonical (op # op' # ops) =
     (\<not> (Type op = Type op' \<and> AEnd op = AStart op' \<and> BEnd op = BStart op') \<and> canonical (op' # ops))"
| "canonical _ = True"

definition equalValid :: "Element list \<Rightarrow> Element list \<Rightarrow> DiffOp \<Rightarrow> bool" where
  "equalValid a b op =
     (\<forall>k. 0 \<le> k \<and> k < AEnd op - AStart op \<longrightarrow>
          0 \<le> AStart op + k \<and> AStart op + k < int (length a) \<and>
          0 \<le> BStart op + k \<and> BStart op + k < int (length b) \<and>
          ElemEqual (a ! nat (AStart op + k)) (b ! nat (BStart op + k)))"

text \<open>The step "in the longer dimension" that the specification describes for the greedy
  fallback when nothing matches at the start of the frame.\<close>

definition longerDimensionStep :: "int \<Rightarrow> int \<Rightarrow> int \<Rightarrow> int \<Rightarrow> int \<times> int" where
  "longerDimensionStep xoff xlim yoff ylim =
     (if xlim - xoff \<ge> ylim - yoff then (xoff + 1, yoff) else (xoff, yoff + 1))"

text \<open>The options that \<open>DiffElementsHistogram\<close> reads after applying them.\<close>

definition histogramRelevant :: "Option \<Rightarrow> bool" where
  "histogramRelevant opt =
     (case opt of WithPostprocessing _ \<Rightarrow> True | WithAnchorElimination _ \<Rightarrow> True | _ \<Rightarrow> False)"

text \<open>The merge loop without its accumulator, for reasoning.\<close>

fun mergeFrom :: "DiffOp \<Rightarrow> DiffOp list \<Rightarrow> DiffOp list" where
  "mergeFrom c [] = [c]"
| "mergeFrom c (op # rest) =
     (if Type c = Type op \<and> AEnd c = AStart op \<and> BEnd c = BStart op
      then mergeFrom (c\<lparr>AEnd := AEnd op, BEnd := BEnd op\<rparr>) rest
      else c # mergeFrom op rest)"

text \<open>The invariant of the loop of \<open>buildOps\<close>: the list built so far is in merged form, and
  the loop stands at the end of the run that its last operation describes.\<close>

definition buildInv :: "diffContext \<Rightarrow> int \<Rightarrow> int \<Rightarrow> int \<Rightarrow> int \<Rightarrow> DiffOp list \<Rightarrow> bool" where
  "buildInv ctx n m i j ops =
     (canonical ops \<and>
      (ops = [] \<or>
       (case Type (last ops) of
          Equal \<Rightarrow> eqRun ctx n m i j = Inr (i, j)
        | Delete \<Rightarrow> changeRun (xchanges ctx) n i = Inr i
        | Insert \<Rightarrow> changeRun (ychanges ctx) m j = Inr j)))"

text \<open>A search state in which the heuristics are off and no snake has been recorded; with the
  heuristics off \<open>track\<close> never records one, so the state stays so.\<close>

definition quiet :: "search \<Rightarrow> bool" where
  "quiet s = (\<not> ctx_useHeuristic (s_ctx s) \<and> bestSnakeScore s = 0)"

definition quietOutcome :: "error + outcome \<Rightarrow> bool" where
  "quietOutcome r = (case r of Inl e \<Rightarrow> True | Inr (Continue s) \<Rightarrow> quiet s
                              | Inr (Return p c) \<Rightarrow> \<not> ctx_useHeuristic c)"

text \<open>The number of operations of a returned list.\<close>

definition opCount :: "(error + DiffOp list) option \<Rightarrow> nat option" where
  "opCount r = (case r of Some (Inr ops) \<Rightarrow> Some (length ops) | _ \<Rightarrow> None)"

section \<open>Element equality\<close>

text \<open>
  C10. \<open>StringElement.Equal\<close> is string equality against another \<open>StringElement\<close> and false
  against anything else; elements of the two different concrete types never compare
  equal, in either direction, even when their hashes coincide (a \<open>CustomElement\<close> whose ID
  is the FNV-1a hash of a string has the hash of that string).
\<close>

theorem StringElement_Equal_iff:
  "ElemEqual (StringElement s) other = (other = StringElement s)
   \<and> \<not> ElemEqual (StringElement s) (CustomElement i n)
   \<and> \<not> ElemEqual (CustomElement i n) (StringElement s)
   \<and> Hash (CustomElement (uint (Hash (StringElement s))) n) = Hash (StringElement s)"
  by (cases other) auto

section \<open>The Myers driver on concrete inputs\<close>

text \<open>
  C2. \<open>Diff\<close> with the default options on the sentence of the README,
  \<open>The quick brown fox jumps\<close> against \<open>A slow red fox leaps\<close>: the preprocessor keeps
  only \<open>fox\<close> of each side, \<open>mapOps\<close> restores the original indices, and \<open>shiftBoundaries\<close>
  receives the filtered one-element sequences; \<open>shiftDelete\<close> on the Delete of \<open>[4, 5)\<close>
  reads \<open>a[4]\<close> of a slice of length 1.
\<close>

theorem Diff_fox_sentence_panics:
  "Diff [''The'', ''quick'', ''brown'', ''fox'', ''jumps'']
        [''A'', ''slow'', ''red'', ''fox'', ''leaps''] [] = Some (Inl IndexOutOfRange)"
  by code_simp

text \<open>
  The middle-snake search has a failure of its own, with both preprocessing and
  postprocessing switched off: on the frame \<open>aaa\<close> against \<open>baaab\<close>, reached from the input
  below, the backward overlap test at \<open>d = 4\<close> reads an \<open>fdiag\<close> entry that the forward
  pass wrote for a point outside the edit graph, and the partition \<open>(4, 6)\<close> lies outside
  the frame \<open>[0, 3) \<times> [0, 5)\<close>; a later call then indexes \<open>bdiag\<close> at \<open>-1\<close>.
\<close>

lemma Diff_core_panics:
  "Diff [''a'', ''a'', ''a'', ''a'', ''a'']
        [''b'', ''a'', ''a'', ''a'', ''b'', ''a'', ''a'', ''b'']
        [WithPreprocessing False, WithPostprocessing False] = Some (Inl IndexOutOfRange)"
  by code_simp

text \<open>
  C1. \<open>Diff\<close> with the default options (the preprocessor filters nothing here) on
  \<open>p. _ q\<close> against \<open>p. _ x _ q\<close>, where \<open>_\<close> is the empty string: \<open>shiftInsert\<close> moves the
  Insert of \<open>b[2, 4) = x _\<close> one step back to \<open>b[1, 3) = _ x\<close>, the Equal operations stay
  as they were, and applying the operations gives \<open>p. _ _ x q\<close>, which is not \<open>b\<close>.
\<close>

theorem Diff_shifted_insert_breaks_reconstruction:
  "Diff [''p.'', '''', ''q''] [''p.'', '''', ''x'', '''', ''q''] []
     = Some (Inr [mkOp Equal 0 2 0 2, mkOp Insert 2 2 1 3, mkOp Equal 2 3 4 5])
   \<and> applyDiff [''p.'', '''', ''q''] [''p.'', '''', ''x'', '''', ''q'']
        [mkOp Equal 0 2 0 2, mkOp Insert 2 2 1 3, mkOp Equal 2 3 4 5]
      = [''p.'', '''', '''', ''x'', ''q'']
   \<and> [''p.'', '''', '''', ''x'', ''q''] \<noteq> [''p.'', '''', ''x'', '''', ''q'']"
  by code_simp

text \<open>
  C3. \<open>Diff\<close> with the default options on \<open>p. _ _ q\<close> against \<open>p. _ q\<close>: \<open>shiftDelete\<close> moves
  the Delete of \<open>a[2, 3)\<close> to \<open>a[1, 2)\<close> and leaves its neighbours alone. The Equal before
  it ends at 2 where the Delete starts at 1; position 1 of \<open>a\<close> is covered twice and
  position 2 not at all.
\<close>

theorem Diff_shifted_delete_breaks_coverage:
  "Diff [''p.'', '''', '''', ''q''] [''p.'', '''', ''q''] []
     = Some (Inr [mkOp Equal 0 2 0 2, mkOp Delete 1 2 2 2, mkOp Equal 3 4 2 3])
   \<and> \<not> contiguous [mkOp Equal 0 2 0 2, mkOp Delete 1 2 2 2, mkOp Equal 3 4 2 3]
   \<and> coveredA [mkOp Equal 0 2 0 2, mkOp Delete 1 2 2 2, mkOp Equal 3 4 2 3] = [0, 1, 1, 3]
   \<and> [0, 1, 1, 3] \<noteq> [0 .. 3]"
  by code_simp

section \<open>Merging is idempotent\<close>

lemma merge_loop_mergeFrom: "merge_loop c rest r = r @ mergeFrom c rest"
  by (induction rest arbitrary: c r) auto

lemma mergeFrom_hd:
  "\<exists>h t. mergeFrom c rest = h # t \<and> Type h = Type c \<and> AStart h = AStart c \<and> BStart h = BStart c"
proof (induction rest arbitrary: c)
  case Nil
  then show ?case by simp
next
  case (Cons op rest)
  show ?case
  proof (cases "Type c = Type op \<and> AEnd c = AStart op \<and> BEnd c = BStart op")
    case True
    with Cons.IH [of "c\<lparr>AEnd := AEnd op, BEnd := BEnd op\<rparr>"] show ?thesis by simp
  next
    case False
    then show ?thesis by auto
  qed
qed

lemma canonical_Cons:
  "canonical (c # h # t) = (\<not> (Type c = Type h \<and> AEnd c = AStart h \<and> BEnd c = BStart h) \<and> canonical (h # t))"
  by simp

lemma canonical_mergeFrom: "canonical (mergeFrom c rest)"
proof (induction rest arbitrary: c)
  case Nil
  then show ?case by simp
next
  case (Cons op rest)
  show ?case
  proof (cases "Type c = Type op \<and> AEnd c = AStart op \<and> BEnd c = BStart op")
    case True
    then show ?thesis using Cons.IH by simp
  next
    case False
    obtain h t where ht: "mergeFrom op rest = h # t" "Type h = Type op" "AStart h = AStart op" "BStart h = BStart op"
      using mergeFrom_hd by blast
    have "canonical (h # t)" using Cons.IH [of op] ht by simp
    with False ht show ?thesis by auto
  qed
qed

lemma mergeFrom_canonical_id: "canonical (c # rest) \<Longrightarrow> mergeFrom c rest = c # rest"
  by (induction rest arbitrary: c) auto

lemma mergeAdjacentOps_mergeFrom:
  "mergeAdjacentOps ops = (case ops of [] \<Rightarrow> [] | c # rest \<Rightarrow> mergeFrom c rest)"
  by (auto simp: mergeAdjacentOps_def merge_loop_mergeFrom split: list.splits)

lemma canonical_mergeAdjacentOps: "canonical (mergeAdjacentOps ops)"
  by (auto simp: mergeAdjacentOps_mergeFrom canonical_mergeFrom split: list.splits)

lemma mergeAdjacentOps_canonical_id: "canonical ops \<Longrightarrow> mergeAdjacentOps ops = ops"
  by (auto simp: mergeAdjacentOps_mergeFrom mergeFrom_canonical_id split: list.splits)

lemma mergeOps_eq: "mergeOps ops = mergeAdjacentOps ops"
  by (simp add: mergeOps_def mergeAdjacentOps_def)

lemma optimize_loop_id: "optimize_loop result a b i = result"
proof (induction result a b i rule: optimize_loop.induct)
  case (1 result a b i)
  show ?case
  proof (cases "i + 1 < length result")
    case False
    then show ?thesis by (simp add: optimize_loop.simps [of result a b i])
  next
    case True
    define r2 where "r2 = (let curr = result ! i; next = result ! (i + 1);
                r1 = (if Type curr = Equal \<and> (Type next = Delete \<or> Type next = Insert)
                      then (case tryShiftEqualBoundary curr next a b of
                              (u, v) \<Rightarrow> result[i := u, i + 1 := v])
                      else result)
            in (if (Type curr = Delete \<or> Type curr = Insert) \<and> Type next = Equal
                      then (case tryShiftChangeBoundary curr next a b of
                              (u, v) \<Rightarrow> r1[i := u, i + 1 := v])
                      else r1))"
    have r2: "r2 = result"
      by (simp add: r2_def Let_def tryShiftEqualBoundary_def tryShiftChangeBoundary_def)
    have "optimize_loop result a b i = optimize_loop r2 a b (i + 1)"
      using True by (simp add: optimize_loop.simps [of result a b i] r2_def Let_def)
    also have "\<dots> = r2"
      using "1.IH" [OF True refl refl refl refl] unfolding r2_def Let_def by simp
    finally show ?thesis using r2 by simp
  qed
qed

lemma optimizeBoundaries_id: "optimizeBoundaries ops a b = ops"
  by (simp add: optimizeBoundaries_def optimize_loop_id)

lemma canonical_shiftBoundaries: "shiftBoundaries ops a b = Inr r \<Longrightarrow> canonical r"
  by (auto simp: shiftBoundaries_def bindE_def optimizeBoundaries_id canonical_mergeAdjacentOps
           split: if_splits sum.splits)

section \<open>The histogram driver and the options\<close>

lemma applyOption_irrelevant:
  "\<not> histogramRelevant opt \<Longrightarrow>
     postprocessing (applyOption opt o') = postprocessing o'
   \<and> anchorElimination (applyOption opt o') = anchorElimination o'"
  by (cases opt) (simp_all add: histogramRelevant_def Let_def)

lemma applyOption_relevant:
  "histogramRelevant opt \<Longrightarrow> postprocessing o1 = postprocessing o2 \<Longrightarrow>
   anchorElimination o1 = anchorElimination o2 \<Longrightarrow>
     postprocessing (applyOption opt o1) = postprocessing (applyOption opt o2)
   \<and> anchorElimination (applyOption opt o1) = anchorElimination (applyOption opt o2)"
  by (cases opt) (simp_all add: histogramRelevant_def)

lemma fold_applyOption_relevant:
  "postprocessing o1 = postprocessing o2 \<Longrightarrow> anchorElimination o1 = anchorElimination o2 \<Longrightarrow>
   postprocessing (fold applyOption opts o1) = postprocessing (fold applyOption (filter histogramRelevant opts) o2)
   \<and> anchorElimination (fold applyOption opts o1) = anchorElimination (fold applyOption (filter histogramRelevant opts) o2)"
proof (induction opts arbitrary: o1 o2)
  case Nil
  then show ?case by simp
next
  case (Cons opt opts)
  show ?case
  proof (cases "histogramRelevant opt")
    case True
    from applyOption_relevant [OF True Cons.prems]
    have "postprocessing (applyOption opt o1) = postprocessing (applyOption opt o2)"
      "anchorElimination (applyOption opt o1) = anchorElimination (applyOption opt o2)" by blast+
    from Cons.IH [OF this] True show ?thesis by simp
  next
    case False
    from applyOption_irrelevant [OF False, of o1] Cons.prems
    have "postprocessing (applyOption opt o1) = postprocessing o2"
      "anchorElimination (applyOption opt o1) = anchorElimination o2" by simp_all
    from Cons.IH [OF this] False show ?thesis by simp
  qed
qed

lemma histogramWith_cong:
  "postprocessing o1 = postprocessing o2 \<Longrightarrow> anchorElimination o1 = anchorElimination o2 \<Longrightarrow>
   histogramWith o1 a b = histogramWith o2 a b"
  by (simp add: histogramWith_def)

text \<open>
  C9. Two calls of \<open>DiffElementsHistogram\<close> on the same sequences whose option lists agree
  once \<open>WithHeuristic\<close>, \<open>WithMinimal\<close>, \<open>WithCostLimit\<close> and \<open>WithPreprocessing\<close> are
  removed return the same result: the driver runs \<open>histogramDiff\<close> with
  \<open>defaultHistogramOptions\<close>, \<open>myersFallback\<close> builds its context from fresh default
  options, and only \<open>anchorElimination\<close> and \<open>postprocessing\<close> are read afterwards.
\<close>

theorem DiffElementsHistogram_ignores_myers_options:
  assumes "filter histogramRelevant opts1 = filter histogramRelevant opts2"
  shows "DiffElementsHistogram a b opts1 = DiffElementsHistogram a b opts2"
proof -
  have 1: "postprocessing (applyOptions opts1) = postprocessing (fold applyOption (filter histogramRelevant opts1) defaultOptions)
      \<and> anchorElimination (applyOptions opts1) = anchorElimination (fold applyOption (filter histogramRelevant opts1) defaultOptions)"
    unfolding applyOptions_def by (rule fold_applyOption_relevant) simp_all
  have 2: "postprocessing (applyOptions opts2) = postprocessing (fold applyOption (filter histogramRelevant opts2) defaultOptions)
      \<and> anchorElimination (applyOptions opts2) = anchorElimination (fold applyOption (filter histogramRelevant opts2) defaultOptions)"
    unfolding applyOptions_def by (rule fold_applyOption_relevant) simp_all
  from 1 2 assms have "postprocessing (applyOptions opts1) = postprocessing (applyOptions opts2)"
    "anchorElimination (applyOptions opts1) = anchorElimination (applyOptions opts2)" by simp_all
  then show ?thesis
    unfolding DiffElementsHistogram_def by (rule histogramWith_cong)
qed


theorem DiffElementsHistogram_ignores_myers_options_witness:
  "filter histogramRelevant [WithMinimal True, WithCostLimit 3, WithPreprocessing False, WithPostprocessing False]
     = filter histogramRelevant [WithHeuristic False, WithPostprocessing False]
   \<and> DiffElementsHistogram (toElements [''a'', ''b'', ''c'']) (toElements [''a'', ''x'', ''c''])
        [WithMinimal True, WithCostLimit 3, WithPreprocessing False, WithPostprocessing False]
     = DiffElementsHistogram (toElements [''a'', ''b'', ''c'']) (toElements [''a'', ''x'', ''c''])
        [WithHeuristic False, WithPostprocessing False]
   \<and> DiffElementsHistogram (toElements [''a'', ''b'', ''c'']) (toElements [''a'', ''x'', ''c''])
        [WithHeuristic False, WithPostprocessing False]
     = Some (Inr [mkOp Equal 0 1 0 1, mkOp Delete 1 2 1 1, mkOp Insert 2 2 1 2, mkOp Equal 2 3 2 3])"
proof -
  have h: "filter histogramRelevant [WithMinimal True, WithCostLimit 3, WithPreprocessing False, WithPostprocessing False]
     = filter histogramRelevant [WithHeuristic False, WithPostprocessing False]"
    by (simp add: histogramRelevant_def)
  have e: "DiffElementsHistogram (toElements [''a'', ''b'', ''c'']) (toElements [''a'', ''x'', ''c''])
        [WithHeuristic False, WithPostprocessing False]
     = Some (Inr [mkOp Equal 0 1 0 1, mkOp Delete 1 2 1 1, mkOp Insert 2 2 1 2, mkOp Equal 2 3 2 3])"
    by code_simp
  from DiffElementsHistogram_ignores_myers_options [OF h]
  have t: "DiffElementsHistogram (toElements [''a'', ''b'', ''c'']) (toElements [''a'', ''x'', ''c''])
        [WithMinimal True, WithCostLimit 3, WithPreprocessing False, WithPostprocessing False]
     = DiffElementsHistogram (toElements [''a'', ''b'', ''c'']) (toElements [''a'', ''x'', ''c''])
        [WithHeuristic False, WithPostprocessing False]" .
  from h t e show ?thesis by (intro conjI)
qed

section \<open>The greedy fallback\<close>

lemma snake_fwd_result:
  "snake_fwd ctx xoff yoff n m x0 y0 = Inr (x, y) \<Longrightarrow>
     x0 \<le> x \<and> x - x0 = y - y0
     \<and> (\<forall>k. 0 \<le> k \<and> k < x - x0 \<longrightarrow> ctx_equal ctx (xoff + x0 + k) (yoff + y0 + k) = Inr True)
     \<and> (x < n \<and> y < m \<longrightarrow> ctx_equal ctx (xoff + x) (yoff + y) = Inr False)"
proof (induction ctx xoff yoff n m x0 y0 rule: snake_fwd.induct)
  case (1 ctx xoff yoff n m x0 y0)
  show ?case
  proof (cases "x0 < n \<and> y0 < m")
    case False
    with "1.prems" show ?thesis by (auto simp: snake_fwd.simps [of ctx xoff yoff n m x0 y0])
  next
    case True
    show ?thesis
    proof (cases "ctx_equal ctx (xoff + x0) (yoff + y0)")
      case (Inl e)
      with True "1.prems" show ?thesis by (simp add: snake_fwd.simps [of ctx xoff yoff n m x0 y0])
    next
      case (Inr eq)
      show ?thesis
      proof (cases eq)
        case False
        with True Inr "1.prems" show ?thesis by (auto simp: snake_fwd.simps [of ctx xoff yoff n m x0 y0])
      next
        case eqT: True
        with True Inr "1.prems" have r: "snake_fwd ctx xoff yoff n m (x0 + 1) (y0 + 1) = Inr (x, y)"
          by (simp add: snake_fwd.simps [of ctx xoff yoff n m x0 y0])
        from "1.IH" [OF True Inr eqT r]
        have ih: "x0 + 1 \<le> x" "x - (x0 + 1) = y - (y0 + 1)"
          "\<forall>k. 0 \<le> k \<and> k < x - (x0 + 1) \<longrightarrow> ctx_equal ctx (xoff + (x0 + 1) + k) (yoff + (y0 + 1) + k) = Inr True"
          "x < n \<and> y < m \<longrightarrow> ctx_equal ctx (xoff + x) (yoff + y) = Inr False"
          by auto
        have "ctx_equal ctx (xoff + x0 + k) (yoff + y0 + k) = Inr True" if k: "0 \<le> k" "k < x - x0" for k
        proof (cases "k = 0")
          case True
          then show ?thesis using Inr eqT by simp
        next
          case False
          with k have "0 \<le> k - 1 \<and> k - 1 < x - (x0 + 1)" by simp
          with ih(3) have "ctx_equal ctx (xoff + (x0 + 1) + (k - 1)) (yoff + (y0 + 1) + (k - 1)) = Inr True"
            by blast
          then show ?thesis by (simp add: algebra_simps)
        qed
        with ih show ?thesis by auto
      qed
    qed
  qed
qed

text \<open>
  C5, as the code has it. \<open>greedyFallback\<close> scans the matching pairs from the start of the
  frame (all \<open>x\<close> pairs before the split match, and the scan stops at the first pair that
  does not match or at an end of the frame) and splits after them; when nothing matches, it
  advances by one in \<open>x\<close> (a deletion) whenever the frame has an element of \<open>a\<close>, and by
  one in \<open>y\<close> only when it has none. The split point differs from the start of the frame, and
  both halves are marked non-minimal.
\<close>

theorem greedyFallback_splits:
  assumes "greedyFallback ctx xoff xlim yoff ylim = Inr p"
  shows "\<not> loMinimal p \<and> \<not> hiMinimal p \<and> (xmid p, ymid p) \<noteq> (xoff, yoff)
     \<and> (\<exists>x. 0 \<le> x
          \<and> (\<forall>k. 0 \<le> k \<and> k < x \<longrightarrow> ctx_equal ctx (xoff + k) (yoff + k) = Inr True)
          \<and> (x < xlim - xoff \<and> x < ylim - yoff \<longrightarrow> ctx_equal ctx (xoff + x) (yoff + x) = Inr False)
          \<and> (if x > 0 then xmid p = xoff + x \<and> ymid p = yoff + x
              else if xlim - xoff > 0 then xmid p = xoff + 1 \<and> ymid p = yoff
              else xmid p = xoff \<and> ymid p = yoff + 1))"
proof -
  from assms obtain x y where s: "snake_fwd ctx xoff yoff (xlim - xoff) (ylim - yoff) 0 0 = Inr (x, y)"
    and p: "p = (if x > 0 then \<lparr>xmid = xoff + x, ymid = yoff + y, loMinimal = False, hiMinimal = False\<rparr>
                 else if xlim - xoff > 0 then \<lparr>xmid = xoff + 1, ymid = yoff, loMinimal = False, hiMinimal = False\<rparr>
                 else \<lparr>xmid = xoff, ymid = yoff + 1, loMinimal = False, hiMinimal = False\<rparr>)"
    by (auto simp: greedyFallback_def bindE_def Let_def split: sum.splits prod.splits if_splits)
  from snake_fwd_result [OF s]
  have r: "0 \<le> x" "x = y"
    "\<forall>k. 0 \<le> k \<and> k < x \<longrightarrow> ctx_equal ctx (xoff + k) (yoff + k) = Inr True"
    "x < xlim - xoff \<and> y < ylim - yoff \<longrightarrow> ctx_equal ctx (xoff + x) (yoff + y) = Inr False"
    by auto
  have flags: "\<not> loMinimal p \<and> \<not> hiMinimal p \<and> (xmid p, ymid p) \<noteq> (xoff, yoff)"
    using p r(1) by (auto split: if_splits)
  have "0 \<le> x
          \<and> (\<forall>k. 0 \<le> k \<and> k < x \<longrightarrow> ctx_equal ctx (xoff + k) (yoff + k) = Inr True)
          \<and> (x < xlim - xoff \<and> x < ylim - yoff \<longrightarrow> ctx_equal ctx (xoff + x) (yoff + x) = Inr False)
          \<and> (if x > 0 then xmid p = xoff + x \<and> ymid p = yoff + x
              else if xlim - xoff > 0 then xmid p = xoff + 1 \<and> ymid p = yoff
              else xmid p = xoff \<and> ymid p = yoff + 1)"
    using p r by (auto split: if_splits)
  then show ?thesis using flags by blast
qed

theorem greedyFallback_splits_witness:
  "greedyFallback (newDiffContext (toElements [''a'', ''b'']) (toElements [''a'', ''c'', ''d'']) defaultOptions) 0 2 0 3
     = Inr \<lparr>xmid = 1, ymid = 1, loMinimal = False, hiMinimal = False\<rparr>
   \<and> (xmid \<lparr>xmid = 1, ymid = 1, loMinimal = False, hiMinimal = False\<rparr>,
       ymid \<lparr>xmid = 1, ymid = 1, loMinimal = False, hiMinimal = False\<rparr>) \<noteq> (0, 0)"
proof -
  have h: "greedyFallback (newDiffContext (toElements [''a'', ''b'']) (toElements [''a'', ''c'', ''d'']) defaultOptions) 0 2 0 3
     = Inr \<lparr>xmid = 1, ymid = 1, loMinimal = False, hiMinimal = False\<rparr>"
    by code_simp
  from greedyFallback_splits [OF h] h show ?thesis by blast
qed

text \<open>
  C5 as stated fails where nothing matches and \<open>b\<close> is the longer side: on the frame
  \<open>a\<close> against \<open>b c d\<close> the fallback splits at \<open>(1, 0)\<close>, a step in \<open>x\<close>, where one step
  in the longer dimension is \<open>(0, 1)\<close>.
\<close>

theorem greedyFallback_not_longer_dimension:
  "greedyFallback (newDiffContext (toElements [''a'']) (toElements [''b'', ''c'', ''d'']) defaultOptions) 0 1 0 3
     = Inr \<lparr>xmid = 1, ymid = 0, loMinimal = False, hiMinimal = False\<rparr>
   \<and> longerDimensionStep 0 1 0 3 = (0, 1)"
  by code_simp

section \<open>The histogram driver on a concrete input\<close>

lemma fold_invariant:
  "P init \<Longrightarrow> (\<And>x s. x \<in> set xs \<Longrightarrow> P s \<Longrightarrow> P (f x s)) \<Longrightarrow> P (fold f xs init)"
  by (induction xs arbitrary: init) auto

text \<open>With \<open>filterStopwords\<close> set, the anchor that \<open>selectAnchor\<close> returns is never a stopword.\<close>

lemma selectAnchor_never_stopword:
  assumes "filterStopwords opts" "fst (selectAnchor a b opts) \<noteq> - 1"
  shows "0 \<le> fst (selectAnchor a b opts) \<and> \<not> isStopword (b ! nat (fst (selectAnchor a b opts)))"
proof -
  have "(\<lambda>s. fst s = - 1 \<or> (0 \<le> fst s \<and> \<not> isStopword (b ! nat (fst s)))) (selectAnchor a b opts)"
    unfolding selectAnchor_def Let_def
    by (rule fold_invariant) (use assms(1) in \<open>auto split: prod.splits if_splits\<close>)
  with assms(2) show ?thesis by blast
qed

text \<open>
  C7. \<open>DiffHistogram\<close> with the default options on \<open>the quick fox\<close> against \<open>the slow fox\<close>
  returns exactly Equal \<open>[0,1) \<times> [0,1)\<close>, Delete \<open>[1,2) \<times> [1,1)\<close>, Insert \<open>[2,2) \<times> [1,2)\<close>,
  Equal \<open>[2,3) \<times> [2,3)\<close>. The word \<open>the\<close> leaves as the common prefix (length 1) and \<open>fox\<close>
  as the common suffix (length 1); the recursion on \<open>quick\<close> against \<open>slow\<close> finds no anchor
  (index -1) and falls back to Myers; \<open>the\<close> is a stopword, and anchor selection on the
  whole sequences picks index 2, \<open>fox\<close>, which lies in the last Equal.
\<close>

theorem DiffHistogram_the_quick_fox:
  "DiffHistogram [''the'', ''quick'', ''fox''] [''the'', ''slow'', ''fox''] []
     = Some (Inr [mkOp Equal 0 1 0 1, mkOp Delete 1 2 1 1, mkOp Insert 2 2 1 2, mkOp Equal 2 3 2 3])
   \<and> commonPrefix (toElements [''the'', ''quick'', ''fox'']) (toElements [''the'', ''slow'', ''fox'']) 0 = Inr 1
   \<and> commonSuffix (toElements [''the'', ''quick'', ''fox'']) (toElements [''the'', ''slow'', ''fox'']) 1 0 = Inr 1
   \<and> fst (selectAnchor (toElements [''quick'']) (toElements [''slow'']) defaultHistogramOptions) = - 1
   \<and> isStopword (StringElement ''the'')
   \<and> fst (selectAnchor (toElements [''the'', ''quick'', ''fox'']) (toElements [''the'', ''slow'', ''fox''])
           defaultHistogramOptions) = 2
   \<and> slice [''the'', ''quick'', ''fox''] (AStart (mkOp Equal 2 3 2 3)) (AEnd (mkOp Equal 2 3 2 3)) = [''fox'']"
  by code_simp

section \<open>The output is in merged form\<close>

text \<open>\<open>buildOps\<close> emits maximal runs: an Equal run stops at a changed position, a Delete run at
  an unchanged position of \<open>a\<close>, an Insert run at an unchanged position of \<open>b\<close>. So no
  operation can be merged with the one before it.\<close>

lemma changeRun_props: "changeRun cs n i = Inr i2 \<Longrightarrow> i \<le> i2 \<and> changeRun cs n i2 = Inr i2"
proof (induction cs n i rule: changeRun.induct)
  case (1 changes n i)
  show ?case
  proof (cases "i < n")
    case False
    with "1.prems" have "i2 = i" by (simp add: changeRun.simps [of changes n i])
    with False show ?thesis by (simp add: changeRun.simps [of changes n i])
  next
    case True
    show ?thesis
    proof (cases "idx changes i")
      case (Inl e)
      with True "1.prems" show ?thesis by (simp add: changeRun.simps [of changes n i])
    next
      case (Inr c)
      show ?thesis
      proof (cases c)
        case False
        with True Inr "1.prems" have "i2 = i" by (simp add: changeRun.simps [of changes n i])
        with True Inr False show ?thesis by (simp add: changeRun.simps [of changes n i])
      next
        case cT: True
        with True Inr "1.prems" have "changeRun changes n (i + 1) = Inr i2"
          by (simp add: changeRun.simps [of changes n i])
        from "1.IH" [OF True Inr cT this] show ?thesis by simp
      qed
    qed
  qed
qed

lemma eqRun_props: "eqRun ctx n m i j = Inr (i1, j1) \<Longrightarrow> i \<le> i1 \<and> i1 - i = j1 - j \<and> eqRun ctx n m i1 j1 = Inr (i1, j1)"
proof (induction ctx n m i j rule: eqRun.induct)
  case (1 ctx n m i j)
  show ?case
  proof (cases "i < n \<and> j < m")
    case False
    with "1.prems" have "i1 = i \<and> j1 = j" by (simp add: eqRun.simps [of ctx n m i j])
    with False show ?thesis by (auto simp: eqRun.simps [of ctx n m i j])
  next
    case True
    show ?thesis
    proof (cases "idx (xchanges ctx) i")
      case (Inl e)
      with True "1.prems" show ?thesis by (simp add: eqRun.simps [of ctx n m i j])
    next
      case xc: (Inr xc)
      show ?thesis
      proof (cases xc)
        case xT: True
        with True xc "1.prems" have "i1 = i \<and> j1 = j" by (simp add: eqRun.simps [of ctx n m i j])
        with True xc xT show ?thesis by (simp add: eqRun.simps [of ctx n m i j])
      next
        case xF: False
        show ?thesis
        proof (cases "idx (ychanges ctx) j")
          case (Inl e)
          with True xc xF "1.prems" show ?thesis by (simp add: eqRun.simps [of ctx n m i j])
        next
          case yc: (Inr yc)
          show ?thesis
          proof (cases yc)
            case yT: True
            with True xc xF yc "1.prems" have "i1 = i \<and> j1 = j" by (simp add: eqRun.simps [of ctx n m i j])
            with True xc xF yc yT show ?thesis by (simp add: eqRun.simps [of ctx n m i j])
          next
            case yF: False
            with True xc xF yc "1.prems" have "eqRun ctx n m (i + 1) (j + 1) = Inr (i1, j1)"
              by (simp add: eqRun.simps [of ctx n m i j])
            from "1.IH" [OF True xc xF yc yF this] show ?thesis by simp
          qed
        qed
      qed
    qed
  qed
qed


lemma canonical_snoc:
  "canonical (ops @ [op]) =
     (canonical ops \<and> (ops = [] \<or> \<not> (Type (last ops) = Type op \<and> AEnd (last ops) = AStart op \<and> BEnd (last ops) = BStart op)))"
proof (induction ops rule: canonical.induct)
  case (1 op1 op2 ops)
  then show ?case by auto
qed simp_all

lemma mkOp_sel [simp]:
  "Type (mkOp t as ae bs be) = t" "AStart (mkOp t as ae bs be) = as" "AEnd (mkOp t as ae bs be) = ae"
  "BStart (mkOp t as ae bs be) = bs" "BEnd (mkOp t as ae bs be) = be"
  by (simp_all add: mkOp_def)

lemma buildInv_snoc:
  assumes "buildInv ctx n m i j L"
    and "L = [] \<or> Type (last L) \<noteq> t"
    and "case t of Equal \<Rightarrow> eqRun ctx n m i' j' = Inr (i', j')
                 | Delete \<Rightarrow> changeRun (xchanges ctx) n i' = Inr i'
                 | Insert \<Rightarrow> changeRun (ychanges ctx) m j' = Inr j'"
  shows "buildInv ctx n m i' j' (L @ [mkOp t as ae bs be])"
  using assms by (auto simp: buildInv_def canonical_snoc)

lemma buildInv_last:
  "buildInv ctx n m i j L \<Longrightarrow> L \<noteq> [] \<Longrightarrow>
     (case Type (last L) of Equal \<Rightarrow> eqRun ctx n m i j = Inr (i, j)
                 | Delete \<Rightarrow> changeRun (xchanges ctx) n i = Inr i
                 | Insert \<Rightarrow> changeRun (ychanges ctx) m j = Inr j)"
  by (auto simp: buildInv_def)

lemma buildInv_step:
  assumes inv: "buildInv ctx n m i j ops"
    and e: "eqRun ctx n m i j = Inr (i1, j1)"
    and d: "changeRun (xchanges ctx) n i1 = Inr i2"
    and s: "changeRun (ychanges ctx) m j1 = Inr j2"
  shows "buildInv ctx n m i2 j2
           (ops @ (if i1 > i then [mkOp Equal i i1 j j1] else [])
                @ (if i2 > i1 then [mkOp Delete i1 i2 j1 j1] else [])
                @ (if j2 > j1 then [mkOp Insert i2 i2 j1 j2] else []))"
proof -
  from eqRun_props [OF e] have e': "eqRun ctx n m i1 j1 = Inr (i1, j1)" and ge: "i \<le> i1" "i1 - i = j1 - j" by simp_all
  from changeRun_props [OF d] have d': "changeRun (xchanges ctx) n i2 = Inr i2" and gd: "i1 \<le> i2" by simp_all
  from changeRun_props [OF s] have s': "changeRun (ychanges ctx) m j2 = Inr j2" and gs: "j1 \<le> j2" by simp_all
  define L1 where "L1 = ops @ (if i1 > i then [mkOp Equal i i1 j j1] else [])"
  define L2 where "L2 = L1 @ (if i2 > i1 then [mkOp Delete i1 i2 j1 j1] else [])"
  define L3 where "L3 = L2 @ (if j2 > j1 then [mkOp Insert i2 i2 j1 j2] else [])"
  have 1: "buildInv ctx n m i1 j1 L1"
  proof (cases "i1 > i")
    case True
    have "ops = [] \<or> Type (last ops) \<noteq> Equal"
    proof (rule ccontr)
      assume "\<not> (ops = [] \<or> Type (last ops) \<noteq> Equal)"
      with buildInv_last [OF inv] have "eqRun ctx n m i j = Inr (i, j)" by simp
      with e True show False by simp
    qed
    from buildInv_snoc [OF inv this, of i1 j1] e' True show ?thesis by (simp add: L1_def)
  next
    case False
    with ge have "i1 = i \<and> j1 = j" by simp
    with inv False show ?thesis by (simp add: L1_def)
  qed
  have 2: "buildInv ctx n m i2 j1 L2"
  proof (cases "i2 > i1")
    case True
    have "L1 = [] \<or> Type (last L1) \<noteq> Delete"
    proof (rule ccontr)
      assume "\<not> (L1 = [] \<or> Type (last L1) \<noteq> Delete)"
      with buildInv_last [OF 1] have "changeRun (xchanges ctx) n i1 = Inr i1" by simp
      with d True show False by simp
    qed
    from buildInv_snoc [OF 1 this, of i2 j1] d' True show ?thesis by (simp add: L2_def)
  next
    case False
    with gd have "i2 = i1" by simp
    with 1 show ?thesis by (simp add: L2_def)
  qed
  have 3: "buildInv ctx n m i2 j2 L3"
  proof (cases "j2 > j1")
    case True
    have "L2 = [] \<or> Type (last L2) \<noteq> Insert"
    proof (rule ccontr)
      assume "\<not> (L2 = [] \<or> Type (last L2) \<noteq> Insert)"
      with buildInv_last [OF 2] have "changeRun (ychanges ctx) m j1 = Inr j1" by simp
      with s True show False by simp
    qed
    from buildInv_snoc [OF 2 this, of i2 j2] s' True show ?thesis by (simp add: L3_def)
  next
    case False
    with gs have "j2 = j1" by simp
    with 2 show ?thesis by (simp add: L3_def)
  qed
  then show ?thesis by (simp add: L3_def L2_def L1_def)
qed

lemma buildOps_loop_canonical:
  assumes "buildOps_loop ctx n m i j ops = Some r"
  shows "buildInv ctx n m i j ops \<Longrightarrow> r = Inr res \<Longrightarrow> canonical res"
  using assms
proof (induction arbitrary: res rule: buildOps_loop.raw_induct [rotated 1, consumes 1])
  case (1 loop ctx n m i j ops r)
  note IH = "1"(1) and eq = "1"(2) and inv = "1"(3) and r = "1"(4)
  show ?case
  proof (cases "i < n \<or> j < m")
    case False
    with eq inv r show ?thesis by (auto simp: buildInv_def)
  next
    case True
    from True eq r obtain i1 j1 i2 j2 where
      e: "eqRun ctx n m i j = Inr (i1, j1)" and
      d: "changeRun (xchanges ctx) n i1 = Inr i2" and
      s: "changeRun (ychanges ctx) m j1 = Inr j2" and
      l: "loop ctx n m i2 j2
            (ops @ (if i1 > i then [mkOp Equal i i1 j j1] else [])
                 @ (if i2 > i1 then [mkOp Delete i1 i2 j1 j1] else [])
                 @ (if j2 > j1 then [mkOp Insert i2 i2 j1 j2] else [])) = Some r"
      by (auto split: sum.splits prod.splits)
    from IH [OF l buildInv_step [OF inv e d s] r] show ?thesis .
  qed
qed

lemma canonical_buildOps: "buildOps ctx = Some (Inr ops) \<Longrightarrow> canonical ops"
  unfolding buildOps_def by (erule buildOps_loop_canonical) (simp_all add: buildInv_def)

lemma bind_sum_Some:
  "Option.bind m (\<lambda>r. case r of Inl e \<Rightarrow> Some (Inl e) | Inr v \<Rightarrow> f v) = Some (Inr x) \<Longrightarrow>
     \<exists>v. m = Some (Inr v) \<and> f v = Some (Inr x)"
  by (cases m) (auto split: sum.splits)

lemma canonical_mapOps: "mapOps mo ops = Inr r \<Longrightarrow> canonical ops \<Longrightarrow> canonical r"
  by (auto simp: mapOps_def bindE_def Let_def mergeOps_eq canonical_mergeAdjacentOps
           split: option.splits sum.splits prod.splits)

lemma canonical_diffWith:
  assumes "diffWith o' a b = Some (Inr ops)"
  shows "canonical ops"
proof (cases "length a = 0 \<or> length b = 0")
  case True
  with assms show ?thesis by (auto simp: diffWith_def split: if_splits)
next
  case False
  define F where "F = (if preprocessing o' then filterConfusingElements a b else Inr (a, b, None))"
  show ?thesis
  proof (cases F)
    case (Inl e)
    with False assms show ?thesis by (simp add: diffWith_def F_def [symmetric])
  next
    case (Inr t)
    obtain a' b' mapping where t: "t = (a', b', mapping)" by (cases t)
    define C where "C = (if length a' > 0 \<or> length b' > 0
                   then compareSeq (newDiffContext a' b' o') 0 (int (length a')) 0 (int (length b'))
                          (forceMinimal o')
                   else Some (Inr (newDiffContext a b o')))"
    define G where "G = (\<lambda>r'. case r' of
                                  Inl e \<Rightarrow> Some (Inl e)
                                | Inr raw \<Rightarrow>
                                    (case mapOps mapping raw of
                                       Inl e \<Rightarrow> Some (Inl e)
                                     | Inr ops1 \<Rightarrow>
                                         if postprocessing o'
                                         then Some (shiftBoundaries ops1 a' b')
                                         else Some (Inr ops1)))"
    from False assms Inr t
    have "Option.bind C (\<lambda>r. case r of Inl e \<Rightarrow> Some (Inl e)
                                | Inr ctx \<Rightarrow> Option.bind (buildOps ctx) G) = Some (Inr ops)"
      unfolding diffWith_def F_def C_def G_def by simp
    then obtain r where r: "C = Some r"
      "(case r of Inl e \<Rightarrow> Some (Inl e) | Inr ctx \<Rightarrow> Option.bind (buildOps ctx) G) = Some (Inr ops)"
      by (auto simp: Option.bind_eq_Some_conv)
    from r(2) obtain ctx where ctx: "Option.bind (buildOps ctx) G = Some (Inr ops)"
      by (cases r) auto
    then obtain r' where r': "buildOps ctx = Some r'" "G r' = Some (Inr ops)"
      by (auto simp: Option.bind_eq_Some_conv)
    from r'(2) obtain raw where raw: "r' = Inr raw" by (cases r') (auto simp: G_def)
    from r'(2) raw obtain ops1 where m: "mapOps mapping raw = Inr ops1"
      by (cases "mapOps mapping raw") (auto simp: G_def)
    from r'(2) raw m have p: "(if postprocessing o' then shiftBoundaries ops1 a' b' else Inr ops1) = Inr ops"
      by (auto simp: G_def split: if_splits)
    from r'(1) raw have "canonical raw" by (auto dest: canonical_buildOps)
    from canonical_mapOps [OF m this] have "canonical ops1" .
    with p show ?thesis by (auto split: if_splits dest: canonical_shiftBoundaries)
  qed
qed

lemma canonical_histogramDiff:
  assumes "histogramDiff a b opts = Some (Inr ops)"
  shows "canonical ops"
proof (cases "length a = 0 \<or> length b = 0")
  case True
  with assms show ?thesis by (auto simp: histogramDiff_def Let_def split: if_splits)
next
  case False
  show ?thesis
  proof (cases "commonPrefix a b 0")
    case (Inl e)
    with False assms show ?thesis by (simp add: histogramDiff_def Let_def)
  next
    case p: (Inr prefixLen)
    show ?thesis
    proof (cases "commonSuffix a b prefixLen 0")
      case (Inl e)
      with False p assms show ?thesis by (simp add: histogramDiff_def Let_def)
    next
      case s: (Inr suffixLen)
      show ?thesis
      proof (cases "prefixLen + suffixLen \<ge> int (length a) \<and> prefixLen + suffixLen \<ge> int (length b)")
        case True
        with False p s assms show ?thesis by (auto simp: histogramDiff_def Let_def)
      next
        case nt: False
        from False p s nt assms show ?thesis
          by (auto simp: histogramDiff_def Let_def canonical_mergeAdjacentOps dest!: bind_sum_Some)
      qed
    qed
  qed
qed

lemma canonical_histogramWith:
  assumes "histogramWith o' a b = Some (Inr ops)"
  shows "canonical ops"
proof -
  from assms obtain r where
    h: "histogramDiff a b defaultHistogramOptions = Some r" and
    g: "(case r of Inl e \<Rightarrow> Some (Inl e)
         | Inr raw \<Rightarrow>
             (if postprocessing o'
              then Some (shiftBoundaries (if anchorElimination o' then eliminateWeakAnchors raw a b else raw) a b)
              else Some (Inr (if anchorElimination o' then eliminateWeakAnchors raw a b else raw)))) = Some (Inr ops)"
    by (auto simp: histogramWith_def Let_def Option.bind_eq_Some_conv)
  from g obtain raw where raw: "r = Inr raw" by (cases r) auto
  define ops1 where "ops1 = (if anchorElimination o' then eliminateWeakAnchors raw a b else raw)"
  from g raw have p: "(if postprocessing o' then shiftBoundaries ops1 a b else Inr ops1) = Inr ops"
    by (auto simp: Let_def ops1_def split: if_splits)
  have "canonical ops1"
    using canonical_histogramDiff [OF h [unfolded raw]]
    by (simp add: ops1_def eliminateWeakAnchors_def canonical_mergeAdjacentOps)
  with p show ?thesis by (auto split: if_splits dest: canonical_shiftBoundaries)
qed

text \<open>
  C8. An operation list returned by \<open>DiffElements\<close> or by \<open>DiffElementsHistogram\<close> has no two
  adjacent operations of the same type whose ranges touch in both coordinates, and
  \<open>mergeAdjacentOps\<close> returns it unchanged. This holds for every input and every list of
  options, whichever path produced the list.
\<close>

theorem merge_is_identity_on_output:
  assumes "DiffElements a b opts = Some (Inr ops) \<or> DiffElementsHistogram a b opts = Some (Inr ops)"
  shows "canonical ops \<and> mergeAdjacentOps ops = ops"
proof -
  from assms have "canonical ops"
    by (auto simp: DiffElements_def DiffElementsHistogram_def
             dest: canonical_diffWith canonical_histogramWith)
  then show ?thesis by (simp add: mergeAdjacentOps_canonical_id)
qed

theorem merge_is_identity_on_output_witness:
  "DiffElements (toElements [''a'', ''b'', ''c'']) (toElements [''a'', ''x'', ''c'']) []
     = Some (Inr [mkOp Equal 0 1 0 1, mkOp Delete 1 2 1 1, mkOp Insert 2 2 1 2, mkOp Equal 2 3 2 3])
   \<and> canonical [mkOp Equal 0 1 0 1, mkOp Delete 1 2 1 1, mkOp Insert 2 2 1 2, mkOp Equal 2 3 2 3]
   \<and> mergeAdjacentOps [mkOp Equal 0 1 0 1, mkOp Delete 1 2 1 1, mkOp Insert 2 2 1 2, mkOp Equal 2 3 2 3]
     = [mkOp Equal 0 1 0 1, mkOp Delete 1 2 1 1, mkOp Insert 2 2 1 2, mkOp Equal 2 3 2 3]"
proof -
  have h: "DiffElements (toElements [''a'', ''b'', ''c'']) (toElements [''a'', ''x'', ''c'']) []
     = Some (Inr [mkOp Equal 0 1 0 1, mkOp Delete 1 2 1 1, mkOp Insert 2 2 1 2, mkOp Equal 2 3 2 3])"
    by code_simp
  from merge_is_identity_on_output [OF disjI1 [OF h]] h show ?thesis by blast
qed

section \<open>Minimal mode\<close>

lemma track_off: "\<not> ctx_useHeuristic (s_ctx s) \<Longrightarrow> track s n m x y l f = s"
  by (simp add: track_def)

lemma quietOutcome_simps [simp]:
  "quietOutcome (Inl e)"
  "quietOutcome (Inr (Continue s)) = quiet s"
  "quietOutcome (Inr (Return p c)) = (\<not> ctx_useHeuristic c)"
  by (simp_all add: quietOutcome_def)

lemma quietOutcome_bindE:
  "(\<And>v. quietOutcome (f v)) \<Longrightarrow> quietOutcome (bindE m f)"
  by (cases m) (simp_all add: bindE_def)

lemma forward_k_quiet: "quiet s \<Longrightarrow> quietOutcome (forward_k s xoff yoff n m d k)"
  unfolding forward_k_def Let_def
  by (auto intro!: quietOutcome_bindE simp: track_off quiet_def split: prod.splits)

lemma backward_k_quiet: "quiet s \<Longrightarrow> quietOutcome (backward_k s xoff yoff n m d k)"
  unfolding backward_k_def Let_def
  by (auto intro!: quietOutcome_bindE simp: track_off quiet_def split: prod.splits)

lemma forward_loop_quiet: "quiet s \<Longrightarrow> quietOutcome (forward_loop s xoff yoff n m d k kMax)"
proof (induction s xoff yoff n m d k kMax rule: forward_loop.induct)
  case (1 s xoff yoff n m d k kMax)
  from forward_k_quiet [OF "1.prems", of xoff yoff n m d k] "1.IH" "1.prems"
  show ?case
    by (subst forward_loop.simps) (auto split: sum.splits outcome.splits)
qed

lemma backward_loop_quiet: "quiet s \<Longrightarrow> quietOutcome (backward_loop s xoff yoff n m d k kMax)"
proof (induction s xoff yoff n m d k kMax rule: backward_loop.induct)
  case (1 s xoff yoff n m d k kMax)
  from backward_k_quiet [OF "1.prems", of xoff yoff n m d k] "1.IH" "1.prems"
  show ?case
    by (subst backward_loop.simps) (auto split: sum.splits outcome.splits)
qed

lemma d_loop_quiet:
  "quiet s \<Longrightarrow>
     d_loop s xoff yoff n m fm maxD cl te d = d_loop s xoff yoff n m True maxD maxD maxD d
     \<and> quietOutcome (d_loop s xoff yoff n m fm maxD cl te d)"
proof (induction s xoff yoff n m fm maxD cl te d rule: d_loop.induct)
  case (1 s xoff yoff n m fm maxD cl te d)
  show ?case
  proof (cases "d \<le> maxD")
    case False
    with "1.prems" show ?thesis
      by (simp add: d_loop.simps [of s xoff yoff n m fm maxD cl te d]
                    d_loop.simps [of s xoff yoff n m True maxD maxD maxD d])
  next
    case le: True
    from "1.prems" have nh: "\<not> (ctx_useHeuristic (s_ctx s) \<and> \<not> fm \<and> d > te \<and> bestSnakeScore s > 0)"
      by (simp add: quiet_def)
    show ?thesis
    proof (cases "forward_loop s xoff yoff n m d (kLow m d) (kHigh n d)")
      case (Inl e)
      with le "1.prems" show ?thesis
        by (simp add: d_loop.simps [of s xoff yoff n m fm maxD cl te d]
                      d_loop.simps [of s xoff yoff n m True maxD maxD maxD d] quiet_def)
    next
      case (Inr r)
      show ?thesis
      proof (cases r)
        case (Return p c)
        with forward_loop_quiet [OF "1.prems", of xoff yoff n m d "kLow m d" "kHigh n d"] Inr
        have "\<not> ctx_useHeuristic c" by simp
        with le "1.prems" Inr Return show ?thesis
          by (simp add: d_loop.simps [of s xoff yoff n m fm maxD cl te d]
                        d_loop.simps [of s xoff yoff n m True maxD maxD maxD d] quiet_def)
      next
        case (Continue s1)
        with forward_loop_quiet [OF "1.prems", of xoff yoff n m d "kLow m d" "kHigh n d"] Inr
        have q1: "quiet s1" by simp
        show ?thesis
        proof (cases "backward_loop s1 xoff yoff n m d (kLow m d) (kHigh n d)")
          case bl: (Inl e)
          with le "1.prems" Inr Continue show ?thesis
            by (simp add: d_loop.simps [of s xoff yoff n m fm maxD cl te d]
                          d_loop.simps [of s xoff yoff n m True maxD maxD maxD d] quiet_def)
        next
          case br: (Inr r2)
          show ?thesis
          proof (cases r2)
            case R2: (Return p c)
            with backward_loop_quiet [OF q1, of xoff yoff n m d "kLow m d" "kHigh n d"] br
            have "\<not> ctx_useHeuristic c" by simp
            with le "1.prems" Inr Continue br R2 show ?thesis
              by (simp add: d_loop.simps [of s xoff yoff n m fm maxD cl te d]
                            d_loop.simps [of s xoff yoff n m True maxD maxD maxD d] quiet_def)
          next
            case C2: (Continue s2)
            with backward_loop_quiet [OF q1, of xoff yoff n m d "kLow m d" "kHigh n d"] br
            have q2: "quiet s2" by simp
            then have b0: "bestSnakeScore s2 = 0" by (simp add: quiet_def)
            from b0 have nc: "\<not> (d \<ge> cl \<and> bestSnakeScore s2 > 0)" by simp
            have IH: "d_loop s2 xoff yoff n m fm maxD cl te (d + 1)
                        = d_loop s2 xoff yoff n m True maxD maxD maxD (d + 1)
                      \<and> quietOutcome (d_loop s2 xoff yoff n m fm maxD cl te (d + 1))"
              using "1.IH" [OF le nh Inr Continue br C2 nc q2] .
            from le "1.prems" Inr Continue br C2 b0 IH show ?thesis
              by (auto simp: d_loop.simps [of s xoff yoff n m fm maxD cl te d]
                            d_loop.simps [of s xoff yoff n m True maxD maxD maxD d] quiet_def)
          qed
        qed
      qed
    qed
  qed
qed


lemma findMiddleSnake_quiet_eq:
  assumes "\<not> ctx_useHeuristic ctx"
  shows "findMiddleSnake ctx xoff xlim yoff ylim fm = findMiddleSnake ctx xoff xlim yoff ylim True"
proof (cases fm)
  case True
  then show ?thesis by simp
next
  case False
  have q: "quiet \<lparr>s_ctx = ctx\<lparr>fdiag := fd, bdiag := bd\<rparr>, bestSnake = noSnake, bestSnakeScore = 0\<rparr>" for fd bd
    using assms by (simp add: quiet_def)
  have D: "d_loop \<lparr>s_ctx = ctx\<lparr>fdiag := fd, bdiag := bd\<rparr>, bestSnake = noSnake, bestSnakeScore = 0\<rparr>
             xoff yoff n m False maxD cl te d
           = d_loop \<lparr>s_ctx = ctx\<lparr>fdiag := fd, bdiag := bd\<rparr>, bestSnake = noSnake, bestSnakeScore = 0\<rparr>
             xoff yoff n m True maxD maxD maxD d" for fd bd n m maxD cl te d
    using d_loop_quiet [OF q] by blast
  from False assms show ?thesis
    unfolding findMiddleSnake_def Let_def by (simp add: D)
qed

lemma findMiddleSnake_quiet_ctx:
  assumes "\<not> ctx_useHeuristic ctx" and a: "findMiddleSnake ctx xoff xlim yoff ylim fm = Inr (p, c)"
  shows "\<not> ctx_useHeuristic c"
proof (cases "xlim - xoff = 0 \<or> ylim - yoff = 0")
  case True
  with a assms show ?thesis by (auto simp: findMiddleSnake_def Let_def split: if_splits)
next
  case False
  define n where "n = xlim - xoff"
  define m where "m = ylim - yoff"
  define maxD where "maxD = quot (n + m + 1) 2"
  have q: "quiet \<lparr>s_ctx = ctx\<lparr>fdiag := fd, bdiag := bd\<rparr>, bestSnake = noSnake, bestSnakeScore = 0\<rparr>" for fd bd
    using assms by (simp add: quiet_def)
  from a have a': "findMiddleSnake ctx xoff xlim yoff ylim True = Inr (p, c)"
    using findMiddleSnake_quiet_eq [OF assms(1), of xoff xlim yoff ylim fm] by simp
  with False assms(1) obtain fd bd r where
    r: "d_loop \<lparr>s_ctx = ctx\<lparr>fdiag := fd, bdiag := bd\<rparr>, bestSnake = noSnake, bestSnakeScore = 0\<rparr>
          xoff yoff n m True maxD maxD maxD 0 = Inr r"
    and c: "(case r of Return p c \<Rightarrow> Inr (p, c)
             | Continue s \<Rightarrow>
                 if bestSnakeScore s > 0
                 then Inr (snakeToPartition (bestSnake s) xoff yoff n m, s_ctx s)
                 else bindE (greedyFallback (s_ctx s) xoff xlim yoff ylim) (\<lambda>p. Inr (p, s_ctx s)))
            = Inr (p, c)"
    unfolding findMiddleSnake_def Let_def n_def m_def maxD_def
    by (auto simp: bindE_def split: sum.splits)
  have "quietOutcome (d_loop \<lparr>s_ctx = ctx\<lparr>fdiag := fd, bdiag := bd\<rparr>, bestSnake = noSnake, bestSnakeScore = 0\<rparr>
          xoff yoff n m True maxD maxD maxD 0)"
    by (rule d_loop_quiet [OF q, THEN conjunct2])
  with r have "quietOutcome (Inr r)" by simp
  with c show ?thesis
    by (cases r) (auto simp: quiet_def bindE_def split: sum.splits if_splits)
qed

lemma markInserted_heur: "markInserted ctx i ylim = Inr c \<Longrightarrow> ctx_useHeuristic c = ctx_useHeuristic ctx"
proof (induction ctx i ylim rule: markInserted.induct)
  case (1 ctx i ylim)
  from "1.prems" "1.IH" show ?case
    by (subst (asm) markInserted.simps) (auto split: if_splits sum.splits)
qed

lemma markDeleted_heur: "markDeleted ctx i xlim = Inr c \<Longrightarrow> ctx_useHeuristic c = ctx_useHeuristic ctx"
proof (induction ctx i xlim rule: markDeleted.induct)
  case (1 ctx i xlim)
  from "1.prems" "1.IH" show ?case
    by (subst (asm) markDeleted.simps) (auto split: if_splits sum.splits)
qed


lemma compareSeq_quiet:
  assumes "compareSeq ctx xoff xlim yoff ylim fm = Some r" and "\<not> ctx_useHeuristic ctx"
  shows "compareSeq ctx xoff xlim yoff ylim fm' = Some r
         \<and> (\<forall>c. r = Inr c \<longrightarrow> \<not> ctx_useHeuristic c)"
  using assms
proof (induction arbitrary: fm' rule: compareSeq.raw_induct [rotated 1, consumes 1])
  case (1 cs ctx xoff xlim yoff ylim fm r)
  note IH = "1"(1) and eq = "1"(2) and nh = "1"(3)
  show ?case
  proof (cases "trimPrefix ctx xoff xlim yoff ylim")
    case (Inl e)
    with eq show ?thesis by (subst compareSeq.simps) auto
  next
    case tp: (Inr t)
    obtain xoff1 yoff1 where t: "t = (xoff1, yoff1)" by (cases t)
    show ?thesis
    proof (cases "trimSuffix ctx xoff1 xlim yoff1 ylim")
      case (Inl e)
      with eq tp t show ?thesis by (subst compareSeq.simps) auto
    next
      case ts: (Inr u)
      obtain xlim1 ylim1 where u: "u = (xlim1, ylim1)" by (cases u)
      show ?thesis
      proof (cases "xoff1 = xlim1 \<or> yoff1 = ylim1")
        case True
        with eq tp t ts u nh show ?thesis
          by (subst compareSeq.simps) (auto simp: markInserted_heur markDeleted_heur)
      next
        case ne: False
        have fe: "findMiddleSnake ctx xoff1 xlim1 yoff1 ylim1 fm'
                    = findMiddleSnake ctx xoff1 xlim1 yoff1 ylim1 fm"
          using findMiddleSnake_quiet_eq [OF nh, of xoff1 xlim1 yoff1 ylim1 fm]
            findMiddleSnake_quiet_eq [OF nh, of xoff1 xlim1 yoff1 ylim1 fm'] by simp
        show ?thesis
        proof (cases "findMiddleSnake ctx xoff1 xlim1 yoff1 ylim1 fm")
          case (Inl e)
          with fe have fe': "findMiddleSnake ctx xoff1 xlim1 yoff1 ylim1 fm' = Inl e" by simp
          from Inl eq tp t ts u ne have "r = Inl e" by simp
          with fe' tp t ts u ne show ?thesis by (subst compareSeq.simps) simp
        next
          case fs: (Inr pc)
          obtain part ctx1 where pc: "pc = (part, ctx1)" by (cases pc)
          from fs pc fe have fs': "findMiddleSnake ctx xoff1 xlim1 yoff1 ylim1 fm' = Inr (part, ctx1)"
            by simp
          from findMiddleSnake_quiet_ctx [OF nh] fs pc have nh1: "\<not> ctx_useHeuristic ctx1" by simp
          from eq tp t ts u ne fs pc obtain r1 where
            r1: "cs ctx1 xoff1 (xmid part) yoff1 (ymid part) (loMinimal part) = Some r1" and
            k: "(case r1 of Inl e \<Rightarrow> Some (Inl e)
                 | Inr ctx2 \<Rightarrow> cs ctx2 (xmid part) xlim1 (ymid part) ylim1 (hiMinimal part)) = Some r"
            by (auto simp: Option.bind_eq_Some_conv)
          note I1 = IH [OF r1 nh1]
          show ?thesis
          proof (cases r1)
            case (Inl e)
            with k I1 [of "loMinimal part"] tp t ts u ne fs' show ?thesis
              by (subst compareSeq.simps) auto
          next
            case (Inr ctx2)
            with I1 [of True] have nh2: "\<not> ctx_useHeuristic ctx2" by simp
            from k Inr have r2: "cs ctx2 (xmid part) xlim1 (ymid part) ylim1 (hiMinimal part) = Some r" by simp
            note I2 = IH [OF r2 nh2]
            from I1 [of "loMinimal part"] I2 [of "hiMinimal part"] Inr tp t ts u ne fs' show ?thesis
              by (subst compareSeq.simps) auto
          qed
        qed
      qed
    qed
  qed
qed

lemma compareSeq_quiet_eq:
  assumes "\<not> ctx_useHeuristic ctx"
  shows "compareSeq ctx xoff xlim yoff ylim fm = compareSeq ctx xoff xlim yoff ylim fm'"
proof (cases "compareSeq ctx xoff xlim yoff ylim fm")
  case (Some r)
  from compareSeq_quiet [OF Some assms, of fm'] Some show ?thesis by simp
next
  case None
  show ?thesis
  proof (cases "compareSeq ctx xoff xlim yoff ylim fm'")
    case (Some r)
    from compareSeq_quiet [OF Some assms, of fm] None show ?thesis by simp
  next
    case N2: None
    with None show ?thesis by simp
  qed
qed

lemma newDiffContext_forceMinimal:
  "newDiffContext a b (o'\<lparr>forceMinimal := fm\<rparr>) = newDiffContext a b o'"
  by (simp add: newDiffContext_def)

lemma newDiffContext_heur:
  "ctx_useHeuristic (newDiffContext a b o') = useHeuristic o'"
  by (simp add: newDiffContext_def Let_def)

lemma diffWith_forceMinimal:
  assumes "\<not> useHeuristic o'"
  shows "diffWith (o'\<lparr>forceMinimal := fm\<rparr>) a b = diffWith o' a b"
proof -
  have "compareSeq (newDiffContext a' b' o') 0 n 0 m fm
          = compareSeq (newDiffContext a' b' o') 0 n 0 m (forceMinimal o')" for a' b' n m
    using assms by (intro compareSeq_quiet_eq) (simp add: newDiffContext_heur)
  then show ?thesis
    unfolding diffWith_def
    by (simp add: newDiffContext_forceMinimal cong: if_cong sum.case_cong prod.case_cong)
qed

text \<open>
  C6, amended. \<open>WithMinimal(true)\<close> sets \<open>forceMinimal\<close> and turns the heuristics off. With the
  heuristics off no snake is ever recorded, so no split of \<open>findMiddleSnake\<close> depends on
  \<open>forceMinimal\<close>: for every \<open>a\<close>, \<open>b\<close> and every list of options, adding \<open>WithMinimal(true)\<close>
  at the end returns exactly what adding \<open>WithHeuristic(false)\<close> returns, the same list of
  operations (or the same failure), hence the same number of operations.
\<close>

theorem minimal_is_heuristics_off:
  "DiffElements a b (opts @ [WithMinimal True]) = DiffElements a b (opts @ [WithHeuristic False])"
proof -
  have "applyOptions (opts @ [WithMinimal True])
          = (applyOptions (opts @ [WithHeuristic False]))\<lparr>forceMinimal := True\<rparr>"
    by (simp add: applyOptions_def)
  moreover have "\<not> useHeuristic (applyOptions (opts @ [WithHeuristic False]))"
    by (simp add: applyOptions_def)
  ultimately show ?thesis
    unfolding DiffElements_def by (simp add: diffWith_forceMinimal)
qed

text \<open>
  C6 as stated fails: the number of operations in minimal mode is not a lower bound for
  the other option sets. On \<open>b a\<close> against \<open>a a c\<close>, minimal mode without preprocessing
  returns four operations and the default search with preprocessing three; on \<open>a\<close>
  against \<open>b a a\<close>, minimal mode with preprocessing returns three operations and the
  default search without preprocessing two. (Postprocessing is off on both sides.)
\<close>

theorem minimal_mode_more_ops:
  "Diff [''b'', ''a''] [''a'', ''a'', ''c''] [WithMinimal True, WithPreprocessing False, WithPostprocessing False]
     = Some (Inr [mkOp Delete 0 1 0 0, mkOp Insert 1 1 0 1, mkOp Equal 1 2 1 2, mkOp Insert 2 2 2 3])
   \<and> Diff [''b'', ''a''] [''a'', ''a'', ''c''] [WithPostprocessing False]
     = Some (Inr [mkOp Delete 0 1 0 0, mkOp Equal 1 2 0 1, mkOp Insert 2 2 1 3])
   \<and> opCount (Diff [''b'', ''a''] [''a'', ''a'', ''c'']
                [WithMinimal True, WithPreprocessing False, WithPostprocessing False]) = Some 4
   \<and> opCount (Diff [''b'', ''a''] [''a'', ''a'', ''c''] [WithPostprocessing False]) = Some 3
   \<and> Diff [''a''] [''b'', ''a'', ''a''] [WithMinimal True, WithPostprocessing False]
     = Some (Inr [mkOp Insert 0 0 0 1, mkOp Equal 0 1 1 2, mkOp Insert 1 1 2 3])
   \<and> Diff [''a''] [''b'', ''a'', ''a''] [WithPreprocessing False, WithPostprocessing False]
     = Some (Inr [mkOp Insert 0 0 0 2, mkOp Equal 0 1 2 3])"
  by code_simp

end
